theory Spec2Isabelle
  imports Complex_Main "HOL-Library.Word" "HOL-Library.Log_Nat"
begin

unbundle bit_operations_syntax

section \<open>Error kinds and failure modes\<close>

text \<open>
  The error kinds of \<^verbatim>\<open>pixie::error::code\<close> that the modelled functions use, with
  \<open>success\<close> as the value a boot worker publishes when nothing was thrown.
\<close>

datatype code =
    success
  | crate_not_ready
  | crate_already_open
  | module_not_found
  | module_number_invalid
  | module_offline
  | module_initialize_failure
  | channel_number_invalid
  | invalid_value
  | config_json_error
  | file_open_failure
  | internal_failure

text \<open>
  What C++ leaves undefined is a value of the model: an index outside a vector, an integer
  division by zero, a signed sum or product outside the 32-bit range, the conversion to
  \<^verbatim>\<open>int\<close> of a double that is not finite or whose truncation does not fit, a shift by
  more than the width of the integer.
\<close>

datatype fault =
  out_of_bounds | division_by_zero | signed_overflow | unrepresentable_conversion | shift_count

text \<open>
  A call that does not return throws a \<^verbatim>\<open>pixie::error::error\<close> of some kind, runs into
  undefined behaviour, or is aborted: an exception that is no \<^verbatim>\<open>pixie::error::error\<close>
  leaves it, or the process ends in \<^verbatim>\<open>std::terminate\<close>.
\<close>

datatype failure = Thrown code | Undefined_Behaviour fault | Aborted

section \<open>fixture.cpp: the baseline of an ADC trace\<close>

text \<open>
  \<^verbatim>\<open>struct channel_baseline\<close>. The C++ \<^verbatim>\<open>int\<close> fields are integers, and
  the sums that \<open>end\<close> forms in 32-bit arithmetic are checked against the 32-bit range; the
  shift count \<^verbatim>\<open>adc_bits\<close> is a natural number; the \<^verbatim>\<open>double\<close> \<^verbatim>\<open>noise_percent\<close> is
  idealised as a real number. \<^verbatim>\<open>hw::adc_word\<close> is \<^verbatim>\<open>uint16_t\<close>.
\<close>

record channel_baseline =
  channel :: int
  adc_bits :: nat
  noise_percent :: real
  runs :: int
  baseline :: int
  bins :: "int list"

definition noise_bins :: int where
  "noise_bins = 30"

text \<open>The values of a 32-bit \<^verbatim>\<open>int\<close>.\<close>

definition int32_range :: "int \<Rightarrow> bool" where
  "int32_range v = (- (2 ^ 31) \<le> v \<and> v < 2 ^ 31)"

text \<open>The conversion \<^verbatim>\<open>int(x)\<close> of a finite double: truncation towards zero.\<close>

definition c_int :: "real \<Rightarrow> int" where
  "c_int x = (if 0 \<le> x then \<lfloor>x\<rfloor> else \<lceil>x\<rceil>)"

text \<open>The constructor \<^verbatim>\<open>channel_baseline(double noise_percent = 0.5)\<close>.\<close>

definition channel_baseline_init :: "real \<Rightarrow> channel_baseline" where
  "channel_baseline_init noise_percent' =
     \<lparr> channel = - 1, adc_bits = 0,
       noise_percent = (if noise_percent' > 100 then 100
                        else if noise_percent' < 0 then 0 else noise_percent'),
       runs = 0, baseline = - 1, bins = [] \<rparr>"

definition default_noise_percent :: real where
  "default_noise_percent = 1 / 2"

definition channel_baseline_start :: "channel_baseline \<Rightarrow> int \<Rightarrow> nat \<Rightarrow> channel_baseline" where
  "channel_baseline_start cb channel' adc_bits' =
     cb \<lparr> channel := channel', adc_bits := adc_bits',
          bins := replicate (2 ^ adc_bits') 0, runs := 0, baseline := - 1 \<rparr>"

text \<open>
  The body of the loop of \<^verbatim>\<open>channel_baseline::update\<close>:
  \<^verbatim>\<open>if (sample > bins.size()) sample = bins.size() - 1; ++bins[sample];\<close>
  The assignment narrows \<^verbatim>\<open>bins.size() - 1\<close> to the 16 bits of the sample.
\<close>

definition bin_sample :: "int list \<Rightarrow> 16 word \<Rightarrow> failure + int list" where
  "bin_sample bs sample =
     (let sample' = (if unat sample > length bs
                     then (word_of_nat (length bs) - 1 :: 16 word) else sample)
      in if unat sample' < length bs
         then Inr (bs [unat sample' := bs ! unat sample' + 1])
         else Inl (Undefined_Behaviour out_of_bounds))"

fun update_loop :: "int list \<Rightarrow> 16 word list \<Rightarrow> failure + int list" where
  "update_loop bs [] = Inr bs"
| "update_loop bs (sample # trace) =
     (case bin_sample bs sample of
        Inl f \<Rightarrow> Inl f
      | Inr bs' \<Rightarrow> update_loop bs' trace)"

definition channel_baseline_update ::
  "channel_baseline \<Rightarrow> 16 word list \<Rightarrow> failure + channel_baseline" where
  "channel_baseline_update cb trace =
     (case update_loop (bins cb) trace of
        Inl f \<Rightarrow> Inl f
      | Inr bs \<Rightarrow> Inr (cb \<lparr> runs := runs cb + 1, bins := bs \<rparr>))"

text \<open>
  \<^verbatim>\<open>std::max_element\<close>: the position of the first largest element, found by one pass that
  moves on a strictly larger element only; \<open>0\<close> (the end iterator) for an empty vector.
\<close>

fun max_element_loop :: "nat \<Rightarrow> int \<Rightarrow> nat \<Rightarrow> int list \<Rightarrow> nat" where
  "max_element_loop largest lv i [] = largest"
| "max_element_loop largest lv i (x # xs) =
     (if lv < x then max_element_loop i x (Suc i) xs
      else max_element_loop largest lv (Suc i) xs)"

definition max_element :: "int list \<Rightarrow> nat" where
  "max_element bs = (case bs of [] \<Rightarrow> 0 | x # xs \<Rightarrow> max_element_loop 0 x 1 xs)"

text \<open>
  C++ integer division truncates towards zero; it is undefined for a zero divisor and for the
  one quotient that does not fit, \<open>- 2 ^ 31 / - 1\<close>.
\<close>

definition c_div :: "int \<Rightarrow> int \<Rightarrow> failure + int" where
  "c_div a b =
     (if b = 0 then Inl (Undefined_Behaviour division_by_zero)
      else if a = - (2 ^ 31) \<and> b = - 1 then Inl (Undefined_Behaviour signed_overflow)
      else Inr (sgn a * sgn b * (\<bar>a\<bar> div \<bar>b\<bar>)))"

text \<open>
  The loop \<^verbatim>\<open>for (int b = from_bin; b < to_bin; ++b)\<close> of \<^verbatim>\<open>channel_baseline::end\<close>,
  carrying \<^verbatim>\<open>sum\<close> and \<^verbatim>\<open>samples\<close>. The upper bound is exclusive. The product
  \<^verbatim>\<open>b * bins[b]\<close> and the two additions are 32-bit \<^verbatim>\<open>int\<close> operations: a result
  outside the 32-bit range is undefined behaviour.
\<close>

function end_loop :: "int list \<Rightarrow> int \<Rightarrow> int \<Rightarrow> int \<Rightarrow> int \<Rightarrow> failure + (int \<times> int)" where
  "end_loop bs b to_bin sum_acc samples =
     (if b < to_bin then
        if int32_range (b * bs ! nat b) \<and> int32_range (sum_acc + b * bs ! nat b) \<and>
           int32_range (samples + bs ! nat b)
        then end_loop bs (b + 1) to_bin (sum_acc + b * bs ! nat b) (samples + bs ! nat b)
        else Inl (Undefined_Behaviour signed_overflow)
      else Inr (sum_acc, samples))"
  by pat_completeness auto
termination
  by (relation "measure (\<lambda>(bs, b, to_bin, sum_acc, samples). nat (to_bin - b))") auto

declare end_loop.simps [simp del]

definition channel_baseline_end :: "channel_baseline \<Rightarrow> failure + channel_baseline" where
  "channel_baseline_end cb =
     (let max_bin = int (max_element (bins cb));
          from_bin = max (max_bin - noise_bins) 0;
          to_bin = min (max_bin + noise_bins) (int (length (bins cb)))
      in case end_loop (bins cb) from_bin to_bin 0 0 of
           Inl f \<Rightarrow> Inl f
         | Inr (sum_acc, samples) \<Rightarrow>
             (case c_div sum_acc samples of
                Inl f \<Rightarrow> Inl f
              | Inr q \<Rightarrow> Inr (cb \<lparr> baseline := q \<rparr>)))"

text \<open>
  The four comparison operators. \<^verbatim>\<open>operator==(const channel_baseline&)\<close> compares the two
  baselines exactly; \<^verbatim>\<open>operator!=(const channel_baseline&)\<close> is \<^verbatim>\<open>*this != other.baseline\<close>,
  which C++ resolves to \<^verbatim>\<open>operator!=(const int)\<close>, the negation of the comparison with
  the noise margin.
\<close>

definition channel_baseline_eq :: "channel_baseline \<Rightarrow> channel_baseline \<Rightarrow> bool" where
  "channel_baseline_eq this other = (baseline this = baseline other)"

definition noise_range :: "channel_baseline \<Rightarrow> int" where
  "noise_range this =
     (if noise_percent this > 0
      then c_int (2 ^ adc_bits this * (noise_percent this / 100))
      else 1)"

definition channel_baseline_eq_int :: "channel_baseline \<Rightarrow> int \<Rightarrow> bool" where
  "channel_baseline_eq_int this bl =
     (baseline this \<ge> bl - noise_range this \<and> baseline this \<le> bl + noise_range this)"

definition channel_baseline_ne_int :: "channel_baseline \<Rightarrow> int \<Rightarrow> bool" where
  "channel_baseline_ne_int this bl = (\<not> channel_baseline_eq_int this bl)"

definition channel_baseline_ne :: "channel_baseline \<Rightarrow> channel_baseline \<Rightarrow> bool" where
  "channel_baseline_ne this other = channel_baseline_ne_int this (baseline other)"

text \<open>
  The swap decision of \<^verbatim>\<open>afe_dbs::boot\<close> for channel \<open>chan\<close>, from the baselines before
  (\<open>bl_same\<close>) and after (\<open>bl_moved\<close>) the even channels were moved to the high rail.
\<close>

definition boot_swapped :: "nat \<Rightarrow> channel_baseline \<Rightarrow> channel_baseline \<Rightarrow> bool" where
  "boot_swapped chan bl_same bl_moved =
     (if chan mod 2 = 0
      then (if channel_baseline_eq bl_same bl_moved then True else False)
      else (if channel_baseline_ne bl_same bl_moved then True else False))"

text \<open>The flags of all channels, in channel order; both vectors hold one baseline per channel.\<close>

definition boot_swap_flags :: "channel_baseline list \<Rightarrow> channel_baseline list \<Rightarrow> bool list" where
  "boot_swap_flags bl_same bl_moved =
     map (\<lambda>chan. boot_swapped chan (bl_same ! chan) (bl_moved ! chan)) [0 ..< length bl_same]"

text \<open>A baseline as \<^verbatim>\<open>analyze_channel_baselines\<close> leaves it: started, then given its value.\<close>

definition measured :: "nat \<Rightarrow> nat \<Rightarrow> int \<Rightarrow> channel_baseline" where
  "measured chan adc_bits' bl =
     (channel_baseline_start (channel_baseline_init default_noise_percent) (int chan) adc_bits')
       \<lparr> runs := 1, baseline := bl \<rparr>"

text \<open>
  One channel's share of \<^verbatim>\<open>analyze_channel_baselines\<close>: \<open>start\<close>, one \<open>update\<close> for
  each captured trace, then \<open>end\<close>.
\<close>

fun update_traces :: "channel_baseline \<Rightarrow> 16 word list list \<Rightarrow> failure + channel_baseline" where
  "update_traces cb [] = Inr cb"
| "update_traces cb (trace # traces) =
     (case channel_baseline_update cb trace of
        Inl f \<Rightarrow> Inl f
      | Inr cb' \<Rightarrow> update_traces cb' traces)"

definition analyze_channel_baseline ::
  "channel_baseline \<Rightarrow> nat \<Rightarrow> nat \<Rightarrow> 16 word list list \<Rightarrow> failure + channel_baseline" where
  "analyze_channel_baseline cb chan adc_bits' traces =
     (case update_traces (channel_baseline_start cb (int chan) adc_bits') traces of
        Inl f \<Rightarrow> Inl f
      | Inr cb' \<Rightarrow> channel_baseline_end cb')"

subsection \<open>The baseline estimate as the specification words it\<close>

text \<open>\<open>m\<close> is the first position of the largest count of \<open>bs\<close>.\<close>

definition is_first_max :: "int list \<Rightarrow> nat \<Rightarrow> bool" where
  "is_first_max bs m =
     (m < length bs \<and> (\<forall>j \<in> {0 ..< length bs}. bs ! j \<le> bs ! m) \<and>
      (\<forall>j \<in> {0 ..< m}. bs ! j < bs ! m))"

text \<open>
  The estimate read off the specification: the samples are counted per value, \<open>m\<close> is the
  bucket of the largest count, and the weighted mean runs over the closed range
  \<open>[max(0, m - 30), min(2 ^ adc_bits, m + 30)]\<close>.
\<close>

definition spec_count :: "16 word list \<Rightarrow> int \<Rightarrow> int" where
  "spec_count samples b = int (length (filter (\<lambda>s. uint s = b) samples))"

definition spec_baseline_closed_range :: "nat \<Rightarrow> 16 word list \<Rightarrow> int" where
  "spec_baseline_closed_range adc_bits' samples =
     (let m = int (max_element (map (\<lambda>b. spec_count samples (int b)) [0 ..< 2 ^ adc_bits']));
          lo = max 0 (m - 30);
          hi = min (2 ^ adc_bits') (m + 30)
      in (\<Sum>b \<in> {lo .. hi}. b * spec_count samples b) div
         (\<Sum>b \<in> {lo .. hi}. spec_count samples b))"

text \<open>
  A histogram of a 6-bit channel after one trace with the samples 40, 40, 40, 41, 39 and 10.
\<close>

definition hist_example :: channel_baseline where
  "hist_example =
     (channel_baseline_start (channel_baseline_init default_noise_percent) 0 6)
       \<lparr> runs := 1, bins := (replicate 64 0) [40 := 3, 41 := 1, 39 := 1, 10 := 1] \<rparr>"

section \<open>fixture.cpp: the DB04 daughter board\<close>

text \<open>
  \<^verbatim>\<open>struct db\<close>: the daughter board fixture of one channel, with the position of the
  board, its base channel and the channel's offset on the board. \<^verbatim>\<open>hw::word\<close> and
  \<^verbatim>\<open>param::value_type\<close> are 32-bit unsigned integers.
\<close>

datatype adc_swap_state = adc_boot_state | adc_unswapped | adc_swapped

record db =
  number :: int
  base :: int
  offset :: int
  adc_state :: adc_swap_state

text \<open>
  What \<^verbatim>\<open>db04::set_dac\<close> asks of the module, in order: \<^verbatim>\<open>select_port\<close>, a register
  write and \<^verbatim>\<open>hw::wait\<close>, whose argument is in microseconds.
\<close>

datatype device_reg = CFG_DAC

datatype hw_op = select_port int | write_word device_reg "32 word" | wait nat

definition db04_set_dac :: "db \<Rightarrow> 32 word \<Rightarrow> failure + hw_op list" where
  "db04_set_dac this val =
     (if val > 65535 then Inl (Thrown invalid_value)
      else
        let dac_addr = (0x20 :: 32 word) OR push_bit 1 (if offset this < 4 then 1 else 0);
            dac_ctrl = (0x30 :: 32 word) +
              (if offset this = 0 \<or> offset this = 4 then 1
               else if offset this = 1 \<or> offset this = 5 then 2
               else if offset this = 2 \<or> offset this = 6 then 0
               else if offset this = 3 \<or> offset this = 7 then 3
               else 0);
            dac = push_bit 24 dac_addr OR push_bit 16 dac_ctrl OR val
        in Inr [select_port (number this + 1), write_word CFG_DAC dac, wait 6000])"

subsection \<open>The DAC command word as the specification words it\<close>

definition spec_sigma :: "int \<Rightarrow> 32 word" where
  "spec_sigma off =
     (if off \<in> {0, 4} then 1 else if off \<in> {1, 5} then 2 else if off \<in> {2, 6} then 0 else 3)"

definition spec_dac_addr :: "int \<Rightarrow> 32 word" where
  "spec_dac_addr off = 0x20 OR (if off < 4 then 2 else 0)"

definition spec_dac_ctrl :: "int \<Rightarrow> 32 word" where
  "spec_dac_ctrl off = 0x30 + spec_sigma off"

section \<open>fixture.cpp: the offset DAC feedback loop\<close>

subsection \<open>Double precision arithmetic\<close>

text \<open>
  A \<^verbatim>\<open>double\<close> is an IEEE 754 binary64 number: a finite value with its sign (true for
  negative) and its magnitude, an infinity with its sign, or a NaN. The magnitudes of the
  finite doubles are the numbers \<open>n * 2 ^ (e - 52)\<close> with \<open>n < 2 ^ 53\<close> and
  \<open>- 1022 \<le> e \<le> 1023\<close>.
\<close>

datatype double = Finite bool real | Infinite bool | NaN

text \<open>The exponent \<open>\<lfloor>log\<^sub>2 m\<rfloor>\<close> of a positive real, and the powers of two.\<close>

definition floor_log2 :: "real \<Rightarrow> int" where
  "floor_log2 m = (if 1 \<le> m then bitlen \<lfloor>m\<rfloor> - 1 else - bitlen (\<lceil>1 / m\<rceil> - 1))"

definition pow2 :: "int \<Rightarrow> real" where
  "pow2 e = (if 0 \<le> e then 2 ^ nat e else 1 / 2 ^ nat (- e))"

text \<open>The nearest integer, a tie going to the even one.\<close>

definition round_half_even :: "real \<Rightarrow> int" where
  "round_half_even q =
     (if q - of_int \<lfloor>q\<rfloor> < 1 / 2 then \<lfloor>q\<rfloor>
      else if 1 / 2 < q - of_int \<lfloor>q\<rfloor> then \<lfloor>q\<rfloor> + 1
      else if even \<lfloor>q\<rfloor> then \<lfloor>q\<rfloor> else \<lfloor>q\<rfloor> + 1)"

text \<open>
  Rounding in the default mode, to nearest with ties to even: the double that an operation
  with the exact result \<open>m\<close> (a magnitude) of sign \<open>s\<close> returns. The spacing of the doubles
  around \<open>m\<close> is \<open>2 ^ (e - 52)\<close> for the exponent \<open>e\<close> of \<open>m\<close>, which is at least
  \<open>- 1022\<close>; a result that rounds to \<open>2 ^ 1024\<close> or more is an infinity.
\<close>

definition binary64 :: "bool \<Rightarrow> real \<Rightarrow> double" where
  "binary64 s m =
     (if m = 0 then Finite s 0
      else
        let e = max (floor_log2 m) (- 1022);
            r = of_int (round_half_even (m / pow2 (e - 52))) * pow2 (e - 52)
        in if 2 ^ 1024 \<le> r then Infinite s else Finite s r)"

text \<open>
  The four operations. Each one rounds its exact result; a sum that is exactly zero is
  negative only when both operands are negative zeros.
\<close>

definition with_sign :: "bool \<Rightarrow> real \<Rightarrow> real" where
  "with_sign s m = (if s then - m else m)"

fun dadd :: "double \<Rightarrow> double \<Rightarrow> double" where
  "dadd (Finite s a) (Finite t b) =
     (if with_sign s a + with_sign t b = 0 then Finite (s \<and> t) 0
      else binary64 (with_sign s a + with_sign t b < 0) \<bar>with_sign s a + with_sign t b\<bar>)"
| "dadd (Finite s a) (Infinite t) = Infinite t"
| "dadd (Infinite s) (Finite t b) = Infinite s"
| "dadd (Infinite s) (Infinite t) = (if s = t then Infinite s else NaN)"
| "dadd NaN _ = NaN"
| "dadd _ NaN = NaN"

fun dneg :: "double \<Rightarrow> double" where
  "dneg (Finite s a) = Finite (\<not> s) a"
| "dneg (Infinite s) = Infinite (\<not> s)"
| "dneg NaN = NaN"

definition dsub :: "double \<Rightarrow> double \<Rightarrow> double" where
  "dsub x y = dadd x (dneg y)"

fun dmul :: "double \<Rightarrow> double \<Rightarrow> double" where
  "dmul (Finite s a) (Finite t b) = binary64 (s \<noteq> t) (a * b)"
| "dmul (Finite s a) (Infinite t) = (if a = 0 then NaN else Infinite (s \<noteq> t))"
| "dmul (Infinite s) (Finite t b) = (if b = 0 then NaN else Infinite (s \<noteq> t))"
| "dmul (Infinite s) (Infinite t) = Infinite (s \<noteq> t)"
| "dmul NaN _ = NaN"
| "dmul _ NaN = NaN"

fun ddiv :: "double \<Rightarrow> double \<Rightarrow> double" where
  "ddiv (Finite s a) (Finite t b) =
     (if b = 0 then (if a = 0 then NaN else Infinite (s \<noteq> t))
      else binary64 (s \<noteq> t) (a / b))"
| "ddiv (Finite s a) (Infinite t) = Finite (s \<noteq> t) 0"
| "ddiv (Infinite s) (Finite t b) = Infinite (s \<noteq> t)"
| "ddiv (Infinite s) (Infinite t) = NaN"
| "ddiv NaN _ = NaN"
| "ddiv _ NaN = NaN"

text \<open>
  The conversions between \<^verbatim>\<open>int\<close> (32 bits) and \<^verbatim>\<open>double\<close>: an \<^verbatim>\<open>int\<close> becomes the
  nearest double, which is the integer itself; a double is truncated towards zero, and the
  conversion is undefined when the double is not finite or the truncated value is no
  \<^verbatim>\<open>int\<close>.
\<close>

definition int_to_double :: "int \<Rightarrow> double" where
  "int_to_double i = binary64 (i < 0) (of_int \<bar>i\<bar>)"

fun double_to_int :: "double \<Rightarrow> failure + int" where
  "double_to_int (Finite s m) =
     (if int32_range (if s then - \<lfloor>m\<rfloor> else \<lfloor>m\<rfloor>) then Inr (if s then - \<lfloor>m\<rfloor> else \<lfloor>m\<rfloor>)
      else Inl (Undefined_Behaviour unrepresentable_conversion))"
| "double_to_int (Infinite s) = Inl (Undefined_Behaviour unrepresentable_conversion)"
| "double_to_int NaN = Inl (Undefined_Behaviour unrepresentable_conversion)"

subsection \<open>The linear fit\<close>

text \<open>
  \<^verbatim>\<open>struct linear_fit<int>\<close>; its fields \<^verbatim>\<open>k\<close> and \<^verbatim>\<open>c\<close> are \<open>fit_k\<close> and
  \<open>fit_c\<close> here, and the vector \<^verbatim>\<open>samples\<close>, which no function touches, is left out.
  \<^verbatim>\<open>update\<close> forms \<^verbatim>\<open>x * y\<close> and \<^verbatim>\<open>x * x\<close> in 32-bit integers before adding them to
  the doubles, and increments the 32-bit \<^verbatim>\<open>count\<close>.
\<close>

record linear_fit =
  fit_k :: double
  fit_c :: double
  sum_x :: double
  sum_y :: double
  sum_xy :: double
  sum_x_sq :: double
  count :: int

definition linear_fit_init :: linear_fit where
  "linear_fit_init =
     \<lparr> fit_k = int_to_double 0, fit_c = int_to_double 0, sum_x = int_to_double 0,
       sum_y = int_to_double 0, sum_xy = int_to_double 0, sum_x_sq = int_to_double 0,
       count = 0 \<rparr>"

definition linear_fit_update :: "linear_fit \<Rightarrow> int \<Rightarrow> int \<Rightarrow> failure + linear_fit" where
  "linear_fit_update lf x y =
     (if int32_range (x * y) \<and> int32_range (x * x) \<and> int32_range (count lf + 1)
      then Inr (lf \<lparr> sum_x := dadd (sum_x lf) (int_to_double x),
                     sum_y := dadd (sum_y lf) (int_to_double y),
                     sum_xy := dadd (sum_xy lf) (int_to_double (x * y)),
                     sum_x_sq := dadd (sum_x_sq lf) (int_to_double (x * x)),
                     count := count lf + 1 \<rparr>)
      else Inl (Undefined_Behaviour signed_overflow))"

definition linear_fit_calc :: "linear_fit \<Rightarrow> linear_fit" where
  "linear_fit_calc lf =
     (let divisor = dsub (dmul (sum_x lf) (sum_x lf)) (dmul (int_to_double (count lf)) (sum_x_sq lf))
      in lf \<lparr> fit_k := ddiv (dsub (dmul (sum_x lf) (sum_y lf))
                                  (dmul (int_to_double (count lf)) (sum_xy lf))) divisor,
              fit_c := ddiv (dsub (dmul (sum_x lf) (sum_xy lf))
                                  (dmul (sum_y lf) (sum_x_sq lf))) divisor \<rparr>)"

definition linear_fit_y :: "linear_fit \<Rightarrow> int \<Rightarrow> failure + int" where
  "linear_fit_y lf x = double_to_int (dadd (dmul (fit_k lf) (int_to_double x)) (fit_c lf))"

subsection \<open>The channel loop of \<^verbatim>\<open>afe_dbs::adjust_offsets\<close>\<close>

text \<open>The constants of \<^verbatim>\<open>afe_dbs::adjust_offsets\<close>.\<close>

definition dac_slope_learn_steps :: int where "dac_slope_learn_steps = 200"
definition linear_fit_samples :: int where "linear_fit_samples = 2"

text \<open>
  The target of a channel, \<^verbatim>\<open>int((1 << bl.adc_bits) * (bl_percents[chan] / 100))\<close>. The
  shift is a 32-bit one: by 31 it gives the least \<^verbatim>\<open>int\<close>, by more it is undefined.
\<close>

definition shift_one :: "nat \<Rightarrow> failure + int" where
  "shift_one n =
     (if n < 31 then Inr (2 ^ n)
      else if n = 31 then Inr (- (2 ^ 31))
      else Inl (Undefined_Behaviour shift_count))"

definition adc_target :: "channel_baseline \<Rightarrow> double \<Rightarrow> failure + int" where
  "adc_target bl bl_percent =
     (case shift_one (adc_bits bl) of
        Inl f \<Rightarrow> Inl f
      | Inr full_scale \<Rightarrow>
          double_to_int (dmul (int_to_double full_scale) (ddiv bl_percent (int_to_double 100))))"

text \<open>
  The end of the update of a channel. The debug line forms \<^verbatim>\<open>adc_target - bl.baseline\<close>
  and \<^verbatim>\<open>offsetdacs[chan] - dac\<close> in 32-bit integers; then \<^verbatim>\<open>offsetdacs[chan] = dac\<close>,
  \<^verbatim>\<open>channel.fixture->set_dac(dac)\<close> with the \<^verbatim>\<open>int\<close> converted to the unsigned
  \<^verbatim>\<open>param::value_type\<close>, and \<^verbatim>\<open>run_again = true\<close>. Only the DB04 fixture answers
  \<^verbatim>\<open>HAS_OFFSET_DAC\<close> with true, so the fixture is a DB04.
\<close>

definition program_dac ::
  "db \<Rightarrow> int \<Rightarrow> int \<Rightarrow> int \<Rightarrow> int \<Rightarrow> linear_fit \<Rightarrow>
   failure + (int \<times> linear_fit \<times> hw_op list \<times> bool)" where
  "program_dac fixture target bl_baseline offsetdac dac bl_fit =
     (if int32_range (target - bl_baseline) \<and> int32_range (offsetdac - dac) then
        (case db04_set_dac fixture (word_of_int dac) of
           Inl f \<Rightarrow> Inl f
         | Inr ops \<Rightarrow> Inr (dac, bl_fit, ops, True))
      else Inl (Undefined_Behaviour signed_overflow))"

text \<open>
  The body of the channel loop of \<^verbatim>\<open>adjust_offsets\<close> for one channel: from the flag
  \<^verbatim>\<open>has_offset_dacs[chan]\<close>, the baseline just measured, \<^verbatim>\<open>bl_percents[chan]\<close>,
  \<^verbatim>\<open>offsetdacs[chan]\<close> and \<^verbatim>\<open>bl_fits[chan]\<close> to the new DAC value, the new fit, the
  hardware operations and whether \<^verbatim>\<open>run_again\<close> was set. The step of 200 is a 32-bit
  addition or subtraction.
\<close>

definition adjust_channel ::
  "db \<Rightarrow> bool \<Rightarrow> channel_baseline \<Rightarrow> double \<Rightarrow> int \<Rightarrow> linear_fit \<Rightarrow>
   failure + (int \<times> linear_fit \<times> hw_op list \<times> bool)" where
  "adjust_channel fixture has_offset_dac bl bl_percent offsetdac bl_fit =
     (if has_offset_dac then
        (case adc_target bl bl_percent of
           Inl f \<Rightarrow> Inl f
         | Inr target \<Rightarrow>
             if channel_baseline_ne_int bl target then
               (case linear_fit_update bl_fit (baseline bl) offsetdac of
                  Inl f \<Rightarrow> Inl f
                | Inr fit1 \<Rightarrow>
                    if count fit1 < linear_fit_samples then
                      let dac = (if target > baseline bl then offsetdac - dac_slope_learn_steps
                                 else offsetdac + dac_slope_learn_steps)
                      in if int32_range dac
                         then program_dac fixture target (baseline bl) offsetdac dac fit1
                         else Inl (Undefined_Behaviour signed_overflow)
                    else
                      let fit2 = linear_fit_calc fit1
                      in (case linear_fit_y fit2 target of
                            Inl f \<Rightarrow> Inl f
                          | Inr dac \<Rightarrow>
                              program_dac fixture target (baseline bl) offsetdac dac fit2))
             else Inr (offsetdac, bl_fit, [], False))
      else Inr (offsetdac, bl_fit, [], False))"

text \<open>
  The channel loop of one run of \<^verbatim>\<open>adjust_offsets\<close>, from channel \<open>chan\<close> on, over the
  vectors \<^verbatim>\<open>has_offset_dacs\<close>, \<^verbatim>\<open>baselines\<close>, \<^verbatim>\<open>bl_percents\<close>, \<^verbatim>\<open>offsetdacs\<close> and
  \<^verbatim>\<open>bl_fits\<close>, each with one entry per channel, and the channels' fixtures.
\<close>

function adjust_channels ::
  "db list \<Rightarrow> bool list \<Rightarrow> channel_baseline list \<Rightarrow> double list \<Rightarrow> nat \<Rightarrow> nat \<Rightarrow>
   int list \<times> linear_fit list \<times> hw_op list \<times> bool \<Rightarrow>
   failure + (int list \<times> linear_fit list \<times> hw_op list \<times> bool)" where
  "adjust_channels fixtures has_offset_dacs baselines bl_percents n chan
       (offsetdacs, bl_fits, ops, run_again) =
     (if chan < n then
        (case adjust_channel (fixtures ! chan) (has_offset_dacs ! chan) (baselines ! chan)
                (bl_percents ! chan) (offsetdacs ! chan) (bl_fits ! chan) of
           Inl f \<Rightarrow> Inl f
         | Inr (dac, bl_fit, ops', again) \<Rightarrow>
             adjust_channels fixtures has_offset_dacs baselines bl_percents n (chan + 1)
               (offsetdacs [chan := dac], bl_fits [chan := bl_fit], ops @ ops',
                run_again \<or> again))
      else Inr (offsetdacs, bl_fits, ops, run_again))"
  by pat_completeness auto
termination
  by (relation "measure (\<lambda>(fixtures, has_offset_dacs, baselines, bl_percents, n, chan, st).
        n - chan)") auto

declare adjust_channels.simps [simp del]

subsection \<open>The least-squares fit as the specification words it\<close>

text \<open>
  The fit that has recorded the pairs \<open>ps\<close> (baseline, DAC), oldest first: its four sums are
  the doubles of the integer sums over the pairs.
\<close>

definition sum_of :: "(int \<times> int \<Rightarrow> int) \<Rightarrow> (int \<times> int) list \<Rightarrow> int" where
  "sum_of f ps = sum_list (map f ps)"

definition fit_of :: "double \<Rightarrow> double \<Rightarrow> (int \<times> int) list \<Rightarrow> linear_fit" where
  "fit_of k c ps =
     \<lparr> fit_k = k, fit_c = c,
       sum_x = int_to_double (sum_of (\<lambda>(x, y). x) ps),
       sum_y = int_to_double (sum_of (\<lambda>(x, y). y) ps),
       sum_xy = int_to_double (sum_of (\<lambda>(x, y). x * y) ps),
       sum_x_sq = int_to_double (sum_of (\<lambda>(x, y). x * x) ps),
       count = int (length ps) \<rparr>"









section \<open>crate.cpp: the crate\<close>

text \<open>
  A module as the crate code reads it: its slot, its revision, whether \<^verbatim>\<open>online()\<close>
  holds, and its number of channels. What a module does when it is booted, probed, closed or
  exported is code outside these files; it is a parameter of the model that gives the way the
  call ends and, where the crate goes on to read it, the module's new state.
\<close>

record module =
  slot :: int
  revision :: int
  online :: bool
  num_channels :: nat

text \<open>
  How a call into a module ends: it returns, throws a \<^verbatim>\<open>pixie::error::error\<close> of some
  kind, or throws something else.
\<close>

datatype exit = Returns | Throws code | Throws_Other

text \<open>
  The backplane is the list of the calls the crate has made on it, oldest first. The crate's
  \<^verbatim>\<open>revision\<close> and \<^verbatim>\<open>firmware\<close> are left out: no function modelled here reads them.
  \<^verbatim>\<open>ready_\<close> and \<^verbatim>\<open>users_\<close> are \<open>ready_flag\<close> and \<open>users_count\<close>.
\<close>

datatype backplane_call = init nat | reinit "module list" "module list"

record crate =
  num_modules :: nat
  backplane :: "backplane_call list"
  modules :: "module list"
  offline :: "module list"
  ready_flag :: bool
  users_count :: int

text \<open>\<^verbatim>\<open>crate::boot_params\<close>; its range \<^verbatim>\<open>modules\<close> is \<open>boot_modules\<close>.\<close>

record boot_params =
  force :: bool
  boot_comms :: bool
  boot_fippi :: bool
  boot_dsp :: bool
  boot_modules :: "nat list"

definition boot_params_init :: boot_params where
  "boot_params_init =
     \<lparr> force = True, boot_comms = True, boot_fippi = True, boot_dsp = True, boot_modules = [] \<rparr>"

text \<open>The constructor \<^verbatim>\<open>crate::crate()\<close> and \<^verbatim>\<open>crate::ready\<close>.\<close>

definition crate_init :: crate where
  "crate_init =
     \<lparr> num_modules = 0, backplane = [], modules = [], offline = [], ready_flag = False, users_count = 0 \<rparr>"

definition crate_ready :: "crate \<Rightarrow> failure option" where
  "crate_ready c = (if \<not> ready_flag c then Some (Thrown crate_not_ready) else None)"

text \<open>
  \<^verbatim>\<open>crate::boot\<close>. A worker publishes \<open>success\<close>, the kind of the error it caught, or
  the exception itself when it is no \<^verbatim>\<open>pixie::error::error\<close>.
\<close>

datatype published = set_value code | set_exception

definition publish :: "exit \<Rightarrow> published" where
  "publish ex = (case ex of Returns \<Rightarrow> set_value success | Throws e \<Rightarrow> set_value e | Throws_Other \<Rightarrow> set_exception)"

text \<open>The module numbers to boot, checked against \<^verbatim>\<open>modules.size()\<close> before \<^verbatim>\<open>ready()\<close>.\<close>

definition boot_mod_nums :: "crate \<Rightarrow> boot_params \<Rightarrow> failure + nat list" where
  "boot_mod_nums c params =
     (if boot_modules params = [] then Inr [0 ..< length (modules c)]
      else if list_ex (\<lambda>mod_num. mod_num \<ge> length (modules c)) (boot_modules params)
      then Inl (Thrown module_number_invalid)
      else Inr (boot_modules params))"

definition boot_skips :: "bool \<Rightarrow> module \<Rightarrow> bool" where
  "boot_skips force' m = (revision m = 0 \<or> (\<not> force' \<and> online m))"

text \<open>
  The loop that spawns the workers. A module of revision 0, or an online module when
  \<^verbatim>\<open>force\<close> is false, gets none. \<open>taken\<close> holds the numbers whose future has been
  fetched: fetching the future of a promise twice throws \<^verbatim>\<open>std::future_error\<close> past
  threads that are still joinable. The workers run side by side, each on its own module; the
  model runs a worker when it is spawned.
\<close>

fun spawn_workers ::
  "(module \<Rightarrow> exit \<times> module) \<Rightarrow> bool \<Rightarrow> nat list \<Rightarrow> nat list \<Rightarrow> module list \<Rightarrow>
   failure + (published list \<times> module list)" where
  "spawn_workers work force' taken [] ms = Inr ([], ms)"
| "spawn_workers work force' taken (mod_num # rest) ms =
     (if boot_skips force' (ms ! mod_num) then spawn_workers work force' taken rest ms
      else if mod_num \<in> set taken then Inl Aborted
      else
        (case spawn_workers work force' (mod_num # taken) rest
                (ms [mod_num := snd (work (ms ! mod_num))]) of
           Inl f \<Rightarrow> Inl f
         | Inr (futures, ms') \<Rightarrow> Inr (publish (fst (work (ms ! mod_num))) # futures, ms')))"

text \<open>
  The loop over the futures, in the order the workers were spawned: \<^verbatim>\<open>get()\<close> rethrows a
  stored exception, and \<^verbatim>\<open>first_error\<close> takes a value only while it is \<open>success\<close>.
\<close>

fun join_workers :: "published list \<Rightarrow> code \<Rightarrow> failure + code" where
  "join_workers [] first_error = Inr first_error"
| "join_workers (set_exception # futures) first_error = Inl Aborted"
| "join_workers (set_value e # futures) first_error =
     join_workers futures (if first_error = success then e else first_error)"

definition crate_boot ::
  "(bool \<Rightarrow> bool \<Rightarrow> bool \<Rightarrow> module \<Rightarrow> exit \<times> module) \<Rightarrow> crate \<Rightarrow> boot_params \<Rightarrow>
   failure option \<times> crate" where
  "crate_boot module_boot c params =
     (case boot_mod_nums c params of
        Inl f \<Rightarrow> (Some f, c)
      | Inr mod_nums \<Rightarrow>
          (case crate_ready c of
             Some f \<Rightarrow> (Some f, c)
           | None \<Rightarrow>
               (case spawn_workers
                       (module_boot (boot_comms params) (boot_fippi params) (boot_dsp params))
                       (force params) [] mod_nums (modules c) of
                  Inl f \<Rightarrow> (Some f, c)
                | Inr (futures, ms') \<Rightarrow>
                    (case join_workers futures success of
                       Inl f \<Rightarrow> (Some f, c \<lparr> modules := ms' \<rparr>)
                     | Inr first_error \<Rightarrow>
                         if first_error \<noteq> success
                         then (Some (Thrown first_error), c \<lparr> modules := ms' \<rparr>)
                         else (None, c \<lparr> modules := ms',
                                         backplane := backplane c @ [reinit ms' (offline c)] \<rparr>)))))"

text \<open>
  \<^verbatim>\<open>crate::shutdown\<close>: every catch of the loop assigns \<^verbatim>\<open>first_error = e.type\<close>.
\<close>

fun shutdown_loop :: "(module \<Rightarrow> exit) \<Rightarrow> module list \<Rightarrow> code \<Rightarrow> failure + code" where
  "shutdown_loop module_close [] first_error = Inr first_error"
| "shutdown_loop module_close (m # ms) first_error =
     (case module_close m of
        Returns \<Rightarrow> shutdown_loop module_close ms first_error
      | Throws e \<Rightarrow> shutdown_loop module_close ms e
      | Throws_Other \<Rightarrow> Inl Aborted)"

definition crate_shutdown :: "(module \<Rightarrow> exit) \<Rightarrow> crate \<Rightarrow> failure option \<times> crate" where
  "crate_shutdown module_close c =
     (case shutdown_loop module_close (modules c) success of
        Inl f \<Rightarrow> (Some f, c)
      | Inr first_error \<Rightarrow>
          (if first_error \<noteq> success then Some (Thrown first_error) else None,
           c \<lparr> modules := [], ready_flag := False \<rparr>))"

text \<open>
  \<^verbatim>\<open>crate::probe\<close>. A probe that throws ends the loop: the modules probed so far, the
  throwing one included, stay as their probes left them, the others are untouched, and the
  backplane is not reinitialised.
\<close>

fun probe_loop ::
  "(module \<Rightarrow> exit \<times> module) \<Rightarrow> module list \<Rightarrow> nat \<Rightarrow> failure option \<times> module list \<times> nat" where
  "probe_loop module_probe [] online_count = (None, [], online_count)"
| "probe_loop module_probe (m # ms) online_count =
     (case module_probe m of
        (Returns, m') \<Rightarrow>
          (case probe_loop module_probe ms (if online m' then online_count + 1 else online_count) of
             (f, ms', n) \<Rightarrow> (f, m' # ms', n))
      | (Throws e, m') \<Rightarrow> (Some (Thrown e), m' # ms, online_count)
      | (Throws_Other, m') \<Rightarrow> (Some Aborted, m' # ms, online_count))"

definition crate_probe :: "(module \<Rightarrow> exit \<times> module) \<Rightarrow> crate \<Rightarrow> (failure + bool) \<times> crate" where
  "crate_probe module_probe c =
     (case crate_ready c of
        Some f \<Rightarrow> (Inl f, c)
      | None \<Rightarrow>
          (case probe_loop module_probe (modules c) 0 of
             (Some f, ms', online_count) \<Rightarrow> (Inl f, c \<lparr> modules := ms' \<rparr>)
           | (None, ms', online_count) \<Rightarrow>
               (Inr (online_count = num_modules c),
                c \<lparr> modules := ms', backplane := backplane c @ [reinit ms' (offline c)] \<rparr>)))"

text \<open>
  \<^verbatim>\<open>crate::export_config\<close> takes the lock and calls \<^verbatim>\<open>config::export_json\<close>, which
  reads every module (\<open>module_export\<close>: the refresh from the DSP and the reads of its
  firmware and variables) and then opens the file.
\<close>

fun export_modules :: "(module \<Rightarrow> exit) \<Rightarrow> module list \<Rightarrow> failure option" where
  "export_modules module_export [] = None"
| "export_modules module_export (m # ms) =
     (case module_export m of
        Returns \<Rightarrow> export_modules module_export ms
      | Throws e \<Rightarrow> Some (Thrown e)
      | Throws_Other \<Rightarrow> Some Aborted)"

definition export_json :: "(module \<Rightarrow> exit) \<Rightarrow> bool \<Rightarrow> crate \<Rightarrow> failure option" where
  "export_json module_export file_opens c =
     (case export_modules module_export (modules c) of
        Some f \<Rightarrow> Some f
      | None \<Rightarrow> if \<not> file_opens then Some (Thrown file_open_failure) else None)"

definition crate_export_config :: "(module \<Rightarrow> exit) \<Rightarrow> bool \<Rightarrow> crate \<Rightarrow> failure option" where
  "crate_export_config module_export file_opens c = export_json module_export file_opens c"

subsection \<open>Example crates\<close>

text \<open>
  A ready crate with modules of revision 15 in the given slots, none online, and module code
  that fails with \<open>module_initialize_failure\<close> in slot 3 and with \<open>internal_failure\<close>
  in slot 5.
\<close>

definition module_example :: "int \<Rightarrow> module" where
  "module_example slot' = \<lparr> slot = slot', revision = 15, online = False, num_channels = 16 \<rparr>"

definition crate_example :: "int list \<Rightarrow> crate" where
  "crate_example slots =
     \<lparr> num_modules = length slots, backplane = [init (length slots)],
       modules = map module_example slots, offline = [], ready_flag = True, users_count = 0 \<rparr>"

definition boot_example :: "bool \<Rightarrow> bool \<Rightarrow> bool \<Rightarrow> module \<Rightarrow> exit \<times> module" where
  "boot_example comms fippi dsp m =
     (if slot m = 3 then (Throws module_initialize_failure, m)
      else if slot m = 5 then (Throws internal_failure, m)
      else (Returns, m \<lparr> online := comms \<and> fippi \<and> dsp \<rparr>))"

definition close_example :: "module \<Rightarrow> exit" where
  "close_example m =
     (if slot m = 3 then Throws module_initialize_failure
      else if slot m = 5 then Throws internal_failure
      else Returns)"

subsection \<open>The result of a boot as the specification words it\<close>

text \<open>The modules after the workers of \<open>targets\<close> have run, each on its own module.\<close>

definition booted_modules :: "(module \<Rightarrow> exit \<times> module) \<Rightarrow> nat list \<Rightarrow> module list \<Rightarrow> module list" where
  "booted_modules work targets ms =
     map (\<lambda>i. if i \<in> set targets then snd (work (ms ! i)) else ms ! i) [0 ..< length ms]"

section \<open>config.cpp: importing the channel variables\<close>

text \<open>
  An element of a JSON value array is an integer, or a string, \<^verbatim>\<open>null\<close> or something else
  (an array, an object) whose conversion to \<^verbatim>\<open>param::value_type\<close> throws a
  \<^verbatim>\<open>json::exception\<close>; booleans and fractional numbers are left out. A variable
  descriptor gives whether the variable is writable and its size per channel; the descriptor
  table is outside these files. A call of
  \<^verbatim>\<open>module.write_var(var, value, channel, offset, io)\<close> is recorded as it is made, and is taken
  to return.
\<close>

datatype json = json_number int | json_string | json_null | json_other

record var_desc =
  writeable :: bool
  desc_size :: nat

datatype write_call = write_var string "32 word" nat nat bool

text \<open>
  \<^verbatim>\<open>operator[]\<close> of a JSON array that is not \<^verbatim>\<open>const\<close> reads \<^verbatim>\<open>null\<close> past the end.
\<close>

definition json_at :: "json list \<Rightarrow> nat \<Rightarrow> json" where
  "json_at vals i = (if i < length vals then vals ! i else json_null)"

text \<open>
  The loop \<^verbatim>\<open>for (idx = vchannels; idx < num_channels; idx++) push_back(value[0])\<close>: one
  element is appended for each missing channel, whatever the size of the variable.
\<close>

fun extend_values :: "json list \<Rightarrow> nat \<Rightarrow> json list" where
  "extend_values vals 0 = vals"
| "extend_values vals (Suc n) =
     (let vals1 = (if vals = [] then [json_null] else vals)
      in extend_values (vals1 @ [vals1 ! 0]) n)"

text \<open>
  The loop over the \<^verbatim>\<open>desc.size\<close> elements of one channel, from element \<open>v\<close> on. The
  handler of the \<^verbatim>\<open>json::exception\<close> converts the element to a \<^verbatim>\<open>std::string\<close> for
  its message: for a string it goes on to throw \<open>config_json_error\<close>, for anything else
  that conversion throws a second \<^verbatim>\<open>json::exception\<close>, which nothing catches.
\<close>

function write_elements ::
  "string \<Rightarrow> json list \<Rightarrow> nat \<Rightarrow> nat \<Rightarrow> nat \<Rightarrow> nat \<Rightarrow> write_call list \<times> failure option" where
  "write_elements var vals chan vbase size' v =
     (if v < size' then
        (case json_at vals (vbase + v) of
           json_number x \<Rightarrow>
             (case write_elements var vals chan vbase size' (v + 1) of
                (ws, f) \<Rightarrow> (write_var var (word_of_int x) chan v False # ws, f))
         | json_string \<Rightarrow> ([], Some (Thrown config_json_error))
         | _ \<Rightarrow> ([], Some Aborted))
      else ([], None))"
  by pat_completeness auto
termination
  by (relation "measure (\<lambda>(var, vals, chan, vbase, size', v). size' - v)") auto

declare write_elements.simps [simp del]

text \<open>The loop over the channels, from channel \<open>chan\<close> on.\<close>

function write_channels ::
  "string \<Rightarrow> json list \<Rightarrow> nat \<Rightarrow> nat \<Rightarrow> nat \<Rightarrow> nat \<Rightarrow> write_call list \<times> failure option" where
  "write_channels var vals num_channels' vchannels size' chan =
     (if chan < num_channels' \<and> chan < vchannels \<and> chan * size' < length vals then
        (case write_elements var vals chan (chan * size') size' 0 of
           (ws, Some f) \<Rightarrow> (ws, Some f)
         | (ws, None) \<Rightarrow>
             (case write_channels var vals num_channels' vchannels size' (chan + 1) of
                (ws', f) \<Rightarrow> (ws @ ws', f)))
      else ([], None))"
  by pat_completeness auto
termination
  by (relation "measure (\<lambda>(var, vals, num_channels', vchannels, size', chan).
        num_channels' - chan)") auto

declare write_channels.simps [simp del]

text \<open>
  What \<^verbatim>\<open>import_json\<close> does with one entry of \<^verbatim>\<open>channel.input\<close> that names a channel
  variable, on a module of \<open>num_channels'\<close> channels.
\<close>

definition import_channel_var ::
  "string \<Rightarrow> var_desc \<Rightarrow> nat \<Rightarrow> json list \<Rightarrow> write_call list \<times> failure option" where
  "import_channel_var var desc num_channels' vals =
     (if writeable desc then
        if desc_size desc = 0 then ([], Some (Undefined_Behaviour division_by_zero))
        else if length vals mod desc_size desc \<noteq> 0 then ([], None)
        else
          let vchannels = length vals div desc_size desc;
              vals' = (if vchannels < num_channels'
                       then extend_values vals (num_channels' - vchannels) else vals);
              vchannels' = (if vchannels < num_channels'
                            then length vals' div desc_size desc else vchannels)
          in write_channels var vals' num_channels' vchannels' (desc_size desc) 0
      else ([], None))"

subsection \<open>The import of a channel variable as the specification words it\<close>

text \<open>
  The array is taken as \<open>num_channels * size\<close> elements: a shorter one is filled up with
  copies of its element 0, a longer one is cut, and every element kept is written with
  \<open>io = false\<close>, channel by channel.
\<close>

definition is_number :: "json \<Rightarrow> bool" where
  "is_number j = (case j of json_number x \<Rightarrow> True | _ \<Rightarrow> False)"

definition to_value :: "json \<Rightarrow> 32 word" where
  "to_value j = (case j of json_number x \<Rightarrow> word_of_int x | _ \<Rightarrow> 0)"

definition spec_values :: "nat \<Rightarrow> nat \<Rightarrow> json list \<Rightarrow> json list" where
  "spec_values size' num_channels' vals =
     take (num_channels' * size')
       (vals @ replicate (num_channels' * size' - length vals) (vals ! 0))"

definition spec_writes :: "string \<Rightarrow> nat \<Rightarrow> nat \<Rightarrow> json list \<Rightarrow> write_call list" where
  "spec_writes var size' num_channels' vals =
     concat (map (\<lambda>chan.
               map (\<lambda>v. write_var var
                           (to_value (spec_values size' num_channels' vals ! (chan * size' + v)))
                           chan v False) [0 ..< size'])
             [0 ..< num_channels'])"


section \<open>Properties of the baseline code\<close>

subsection \<open>Binning the samples of a trace\<close>

text \<open>
  On a vector of \<open>2 ^ n\<close> bins every 16-bit sample is binned inside the vector, but for the
  one sample equal to \<open>2 ^ n\<close>.
\<close>

lemma bin_sample_below_full_scale:
  assumes "length bs = 2 ^ n" "n \<le> 16" "unat sample \<noteq> 2 ^ n"
  shows "\<exists>bs'. bin_sample bs sample = Inr bs' \<and> length bs' = length bs"
proof (cases "unat sample > length bs")
  case False
  with assms have "unat sample < length bs" by simp
  with False show ?thesis by (simp add: bin_sample_def)
next
  case True
  have lt: "unat sample < 2 ^ 16" using unsigned_less [of sample] by simp
  with True assms(1) have p: "(2::nat) ^ n < 2 ^ 16" by simp
  have n16: "n < 16" by (rule power_less_imp_less_exp [OF _ p]) simp
  have "unat (word_of_nat (2 ^ n) - 1 :: 16 word) = 2 ^ n - 1"
  proof -
    have e: "(word_of_nat (2 ^ n) - 1 :: 16 word) = word_of_nat (2 ^ n - 1)"
      by (simp add: of_nat_diff)
    have b: "(2::nat) ^ n - 1 < 2 ^ 16" using p by simp
    have "unat (word_of_nat (2 ^ n - 1) :: 16 word) = (2 ^ n - 1) mod 2 ^ LENGTH(16)"
      by (rule unat_of_nat)
    also have "\<dots> = 2 ^ n - 1" using b by simp
    finally show ?thesis unfolding e .
  qed
  then have "unat (word_of_nat (length bs) - 1 :: 16 word) < length bs"
    using assms(1) by simp
  with True show ?thesis by (simp add: bin_sample_def Let_def)
qed


text \<open>
  C10. After \<open>start\<close> with 14 ADC bits the vector has \<open>2 ^ 14\<close> bins. The guard of
  \<open>update\<close> is \<^verbatim>\<open>sample > bins.size()\<close>, so the sample \<open>16384 = 2 ^ 14\<close> passes it
  unchanged and the increment indexes one past the last bin.
\<close>

theorem update_full_scale_sample_out_of_bounds:
  "channel_baseline_update
     (channel_baseline_start (channel_baseline_init default_noise_percent) 0 14) [16384]
   = Inl (Undefined_Behaviour out_of_bounds)"
  by (simp add: channel_baseline_update_def channel_baseline_start_def bin_sample_def)

text \<open>
  A histogram filled by \<open>start\<close> and \<open>update\<close> has \<open>2 ^ adc_bits\<close> counts, none
  negative, and a positive one once a sample was binned.
\<close>

lemma bin_sample_counts:
  assumes "bin_sample bs sample = Inr bs'"
  shows "length bs' = length bs"
    and "(\<forall>c \<in> set bs. 0 \<le> c) \<Longrightarrow> (\<forall>c \<in> set bs'. 0 \<le> c) \<and> (\<exists>c \<in> set bs'. 0 < c)"
proof -
  define s where "s = (if unat sample > length bs then (word_of_nat (length bs) - 1 :: 16 word) else sample)"
  from assms have lt: "unat s < length bs" and eq: "bs' = bs [unat s := bs ! unat s + 1]"
    by (auto simp: bin_sample_def Let_def s_def split: if_splits)
  show "length bs' = length bs" by (simp add: eq)
  assume nn: "\<forall>c \<in> set bs. 0 \<le> c"
  then have here: "0 \<le> bs ! unat s" using lt by simp
  have "\<forall>c \<in> set bs'. 0 \<le> c"
    unfolding eq using nn here by (auto dest!: set_update_subset_insert [THEN subsetD])
  moreover have "bs' ! unat s \<in> set bs'" using lt by (intro nth_mem) (simp add: eq)
  moreover have "0 < bs' ! unat s" using lt here by (simp add: eq)
  ultimately show "(\<forall>c \<in> set bs'. 0 \<le> c) \<and> (\<exists>c \<in> set bs'. 0 < c)" by blast
qed

lemma update_loop_counts:
  assumes "update_loop bs trace = Inr bs'" "\<forall>c \<in> set bs. 0 \<le> c"
  shows "length bs' = length bs \<and> (\<forall>c \<in> set bs'. 0 \<le> c) \<and>
         ((trace \<noteq> [] \<or> (\<exists>c \<in> set bs. 0 < c)) \<longrightarrow> (\<exists>c \<in> set bs'. 0 < c))"
  using assms
proof (induction trace arbitrary: bs)
  case Nil
  then show ?case by simp
next
  case (Cons sample trace)
  from Cons.prems(1) obtain bs1 where b1: "bin_sample bs sample = Inr bs1"
    and rest: "update_loop bs1 trace = Inr bs'"
    by (auto split: sum.splits)
  note c = bin_sample_counts [OF b1]
  from c(2) Cons.prems(2) have nn1: "\<forall>c \<in> set bs1. 0 \<le> c" and pos1: "\<exists>c \<in> set bs1. 0 < c"
    by blast+
  from Cons.IH [OF rest nn1] c(1) pos1 show ?case by simp
qed

lemma update_traces_counts:
  assumes "update_traces cb traces = Inr cb'" "\<forall>c \<in> set (bins cb). 0 \<le> c"
  shows "adc_bits cb' = adc_bits cb \<and> length (bins cb') = length (bins cb) \<and>
         (\<forall>c \<in> set (bins cb'). 0 \<le> c) \<and>
         (((\<exists>t \<in> set traces. t \<noteq> []) \<or> (\<exists>c \<in> set (bins cb). 0 < c)) \<longrightarrow>
            (\<exists>c \<in> set (bins cb'). 0 < c))"
  using assms
proof (induction traces arbitrary: cb)
  case Nil
  then show ?case by simp
next
  case (Cons trace traces)
  from Cons.prems(1) obtain cb1 where u: "channel_baseline_update cb trace = Inr cb1"
    and rest: "update_traces cb1 traces = Inr cb'"
    by (auto split: sum.splits)
  from u obtain bs1 where l: "update_loop (bins cb) trace = Inr bs1"
    and cb1: "cb1 = cb \<lparr> runs := runs cb + 1, bins := bs1 \<rparr>"
    by (auto simp: channel_baseline_update_def split: sum.splits)
  note c = update_loop_counts [OF l Cons.prems(2)]
  have nn1: "\<forall>c \<in> set (bins cb1). 0 \<le> c" using c by (simp add: cb1)
  from Cons.IH [OF rest nn1] c show ?case by (auto simp: cb1)
qed

lemma analyze_channel_baseline_histogram:
  assumes "update_traces (channel_baseline_start cb chan n) traces = Inr cb'"
    and "\<exists>t \<in> set traces. t \<noteq> []"
  shows "length (bins cb') = 2 ^ adc_bits cb' \<and> (\<forall>c \<in> set (bins cb'). 0 \<le> c) \<and>
         (\<exists>c \<in> set (bins cb'). 0 < c)"
proof -
  have "\<forall>c \<in> set (bins (channel_baseline_start cb chan n)). 0 \<le> c"
    by (simp add: channel_baseline_start_def)
  from update_traces_counts [OF assms(1) this] assms(2) show ?thesis
    by (simp add: channel_baseline_start_def)
qed


subsection \<open>The comparison operators and the swap decision\<close>

text \<open>
  With a positive noise percentage, \<open>operator==(int)\<close> holds exactly when the two values
  differ by at most \<open>2 ^ adc_bits * noise_percent / 100\<close>.
\<close>

lemma eq_int_iff_within_noise:
  assumes "noise_percent this > 0"
  shows "channel_baseline_eq_int this bl \<longleftrightarrow>
         \<bar>real_of_int (baseline this - bl)\<bar> \<le> 2 ^ adc_bits this * noise_percent this / 100"
proof -
  let ?X = "2 ^ adc_bits this * (noise_percent this / 100)"
  have X: "0 \<le> ?X" using assms by simp
  have r: "noise_range this = \<lfloor>?X\<rfloor>" using assms X by (simp add: noise_range_def c_int_def)
  have "channel_baseline_eq_int this bl \<longleftrightarrow> \<bar>baseline this - bl\<bar> \<le> \<lfloor>?X\<rfloor>"
    unfolding channel_baseline_eq_int_def r by linarith
  also have "\<dots> \<longleftrightarrow> real_of_int \<bar>baseline this - bl\<bar> \<le> ?X" by (rule le_floor_iff)
  finally show ?thesis by simp
qed

text \<open>What \<open>boot\<close> decides for each channel of the module.\<close>

lemma boot_swap_flags_nth:
  assumes "chan < length bl_same"
  shows "boot_swap_flags bl_same bl_moved ! chan =
     (if even chan then baseline (bl_same ! chan) = baseline (bl_moved ! chan)
      else \<not> channel_baseline_eq_int (bl_same ! chan) (baseline (bl_moved ! chan)))"
  using assms
  by (simp add: boot_swap_flags_def boot_swapped_def channel_baseline_eq_def
      channel_baseline_ne_def channel_baseline_ne_int_def even_iff_mod_2_eq_zero)

lemma noise_range_default_14: "noise_range (measured chan 14 bl) = 81"
  by (simp add: noise_range_def measured_def channel_baseline_start_def
      channel_baseline_init_def default_noise_percent_def c_int_def)

text \<open>
  C8. At 14 bits and the default noise of 0.5 percent, baselines 1000 and 1001 are unequal for
  \<open>==\<close> (exact) and not unequal for \<open>!=\<close> (within the margin of 81): the two operators on
  a \<open>channel_baseline\<close> are not each other's negation.
\<close>

theorem baseline_ne_not_negation_of_eq:
  "channel_baseline_ne (measured 0 14 1000) (measured 0 14 1001) = False \<and>
   channel_baseline_eq (measured 0 14 1000) (measured 0 14 1001) = False"
  by (simp add: channel_baseline_ne_def channel_baseline_ne_int_def channel_baseline_eq_int_def
      channel_baseline_eq_def noise_range_default_14) (simp add: measured_def)

text \<open>
  C1. Even channel 0 at 14 bits: the baseline is 1000 before and 1001 after the move. The two
  are equal within the noise margin (the channel did not move), yet the channel is not
  flagged, because the even branch compares with the exact \<open>==\<close>.
\<close>

theorem boot_even_channel_within_noise_not_flagged:
  "channel_baseline_eq_int (measured 0 14 1000) (baseline (measured 0 14 1001)) = True \<and>
   boot_swapped 0 (measured 0 14 1000) (measured 0 14 1001) = False"
  by (simp add: boot_swapped_def channel_baseline_eq_def channel_baseline_eq_int_def
      noise_range_default_14) (simp add: measured_def)

subsection \<open>The histogram peak and the weighted mean\<close>

lemma max_element_loop_first_max:
  assumes "length pre = i" "largest < i" "pre ! largest = lv"
    "\<forall>j < i. pre ! j \<le> lv" "\<forall>j < largest. pre ! j < lv"
  shows "is_first_max (pre @ xs) (max_element_loop largest lv i xs)"
  using assms
proof (induction xs arbitrary: pre i largest lv)
  case Nil
  then show ?case by (simp add: is_first_max_def)
next
  case (Cons x xs)
  show ?case
  proof (cases "lv < x")
    case True
    have "is_first_max ((pre @ [x]) @ xs) (max_element_loop i x (Suc i) xs)"
    proof (rule Cons.IH)
      show "length (pre @ [x]) = Suc i" using Cons.prems by simp
      show "i < Suc i" by simp
      show "(pre @ [x]) ! i = x" using Cons.prems by (simp add: nth_append)
      show "\<forall>j<Suc i. (pre @ [x]) ! j \<le> x"
        using Cons.prems True by (auto simp: nth_append less_Suc_eq intro: order_trans less_imp_le)
      show "\<forall>j<i. (pre @ [x]) ! j < x"
        using Cons.prems True by (auto simp: nth_append)
    qed
    with True show ?thesis by simp
  next
    case False
    have "is_first_max ((pre @ [x]) @ xs) (max_element_loop largest lv (Suc i) xs)"
    proof (rule Cons.IH)
      show "length (pre @ [x]) = Suc i" using Cons.prems by simp
      show "largest < Suc i" using Cons.prems by simp
      show "(pre @ [x]) ! largest = lv" using Cons.prems by (simp add: nth_append)
      show "\<forall>j<Suc i. (pre @ [x]) ! j \<le> lv"
        using Cons.prems False by (auto simp: nth_append less_Suc_eq)
      show "\<forall>j<largest. (pre @ [x]) ! j < lv"
        using Cons.prems by (auto simp: nth_append)
    qed
    with False show ?thesis by simp
  qed
qed

lemma max_element_first_max: "bs \<noteq> [] \<Longrightarrow> is_first_max bs (max_element bs)"
proof (cases bs)
  case Nil
  assume "bs \<noteq> []" with Nil show ?thesis by simp
next
  case (Cons x xs)
  have "is_first_max ([x] @ xs) (max_element_loop 0 x 1 xs)"
    by (rule max_element_loop_first_max) simp_all
  with Cons show ?thesis by (simp add: max_element_def)
qed

lemma end_loop_sums:
  assumes "0 \<le> b" "\<forall>j \<in> {b ..< to_bin}. 0 \<le> bs ! nat j"
    and "0 \<le> s" "s < 2 ^ 31" "0 \<le> n" "n < 2 ^ 31"
  shows "end_loop bs b to_bin s n =
     (if s + (\<Sum>j \<in> {b ..< to_bin}. j * bs ! nat j) < 2 ^ 31 \<and>
         n + (\<Sum>j \<in> {b ..< to_bin}. bs ! nat j) < 2 ^ 31
      then Inr (s + (\<Sum>j \<in> {b ..< to_bin}. j * bs ! nat j),
                n + (\<Sum>j \<in> {b ..< to_bin}. bs ! nat j))
      else Inl (Undefined_Behaviour signed_overflow))"
  using assms
proof (induction bs b to_bin s n rule: end_loop.induct)
  case (1 bs b to_bin s n)
  show ?case
  proof (cases "b < to_bin")
    case False
    then show ?thesis using "1.prems" by (subst end_loop.simps) simp
  next
    case True
    define p where "p = b * bs ! nat b"
    define c where "c = bs ! nat b"
    define S1 where "S1 = (\<Sum>j \<in> {b + 1 ..< to_bin}. j * bs ! nat j)"
    define S2 where "S2 = (\<Sum>j \<in> {b + 1 ..< to_bin}. bs ! nat j)"
    have split: "{b ..< to_bin} = insert b {b + 1 ..< to_bin}" using True by auto
    have step: "(\<Sum>j \<in> {b ..< to_bin}. f j) = f b + (\<Sum>j \<in> {b + 1 ..< to_bin}. f j)"
      for f :: "int \<Rightarrow> int"
      by (subst split) simp
    have sum1: "(\<Sum>j \<in> {b ..< to_bin}. j * bs ! nat j) = p + S1"
      and sum2: "(\<Sum>j \<in> {b ..< to_bin}. bs ! nat j) = c + S2"
      by (simp_all add: step p_def c_def S1_def S2_def)
    have c0: "0 \<le> c" using "1.prems"(2) True by (simp add: c_def)
    have p0: "0 \<le> p" using c0 "1.prems"(1) by (simp add: p_def c_def)
    have rest: "\<forall>j \<in> {b + 1 ..< to_bin}. 0 \<le> bs ! nat j" using "1.prems"(2) by simp
    have S20: "0 \<le> S2" unfolding S2_def by (rule sum_nonneg) (use rest in simp)
    have S10: "0 \<le> S1" unfolding S1_def
      by (rule sum_nonneg) (use rest "1.prems"(1) in auto)
    have unf: "end_loop bs b to_bin s n =
        (if int32_range p \<and> int32_range (s + p) \<and> int32_range (n + c)
         then end_loop bs (b + 1) to_bin (s + p) (n + c)
         else Inl (Undefined_Behaviour signed_overflow))"
      using True by (subst end_loop.simps) (simp add: p_def c_def)
    show ?thesis
    proof (cases "int32_range p \<and> int32_range (s + p) \<and> int32_range (n + c)")
      case ok: True
      then have b1: "s + p < 2 ^ 31" "n + c < 2 ^ 31" by (simp_all add: int32_range_def)
      have IH: "end_loop bs (b + 1) to_bin (s + p) (n + c) =
         (if s + p + S1 < 2 ^ 31 \<and> n + c + S2 < 2 ^ 31
          then Inr (s + p + S1, n + c + S2)
          else Inl (Undefined_Behaviour signed_overflow))"
        unfolding p_def c_def S1_def S2_def
        using "1.IH" [OF True] ok "1.prems" rest p0 c0 b1
        by (simp add: p_def c_def)
      show ?thesis
        unfolding unf sum1 sum2 using ok IH by (simp add: add.assoc)
    next
      case bad: False
      then have "2 ^ 31 \<le> p \<or> 2 ^ 31 \<le> s + p \<or> 2 ^ 31 \<le> n + c"
        using p0 c0 "1.prems"(3,5) by (auto simp: int32_range_def)
      then have "\<not> (s + (p + S1) < 2 ^ 31 \<and> n + (c + S2) < 2 ^ 31)"
        using S10 S20 "1.prems"(3,5) p0 c0 by linarith
      then have big: "(s + (p + S1) < 2 ^ 31 \<and> n + (c + S2) < 2 ^ 31) = False" by simp
      from bad have cond: "(int32_range p \<and> int32_range (s + p) \<and> int32_range (n + c)) = False"
        by simp
      show ?thesis
        unfolding unf sum1 sum2 cond big by simp
    qed
  qed
qed

text \<open>
  C4, as the code has it. For a histogram of \<open>2 ^ adc_bits\<close> counts, none negative and one
  positive, \<open>end\<close> forms two 32-bit sums over the buckets \<open>b\<close> with
  \<open>max(0, m - 30) \<le> b < min(2 ^ adc_bits, m + 30)\<close>, where \<open>m\<close> is the first bucket of
  the largest count: the upper bound is exclusive. When the weighted sum and the sample count
  of that window both stay below \<open>2 ^ 31\<close> the baseline becomes their integer quotient;
  otherwise an addition or a product of the loop overflows \<^verbatim>\<open>int\<close>, which is undefined
  behaviour.
\<close>

theorem channel_baseline_end_half_open_mean:
  assumes len: "length (bins cb) = 2 ^ adc_bits cb"
    and nonneg: "\<forall>c \<in> set (bins cb). 0 \<le> c"
    and some: "\<exists>c \<in> set (bins cb). 0 < c"
  shows "is_first_max (bins cb) (max_element (bins cb)) \<and>
         channel_baseline_end cb =
           (if (\<Sum>b \<in> {max 0 (int (max_element (bins cb)) - 30) ..<
                        min (2 ^ adc_bits cb) (int (max_element (bins cb)) + 30)}. b * bins cb ! nat b)
                 < 2 ^ 31 \<and>
               (\<Sum>b \<in> {max 0 (int (max_element (bins cb)) - 30) ..<
                        min (2 ^ adc_bits cb) (int (max_element (bins cb)) + 30)}. bins cb ! nat b)
                 < 2 ^ 31
            then Inr (cb \<lparr> baseline :=
               (\<Sum>b \<in> {max 0 (int (max_element (bins cb)) - 30) ..<
                         min (2 ^ adc_bits cb) (int (max_element (bins cb)) + 30)}. b * bins cb ! nat b)
               div
               (\<Sum>b \<in> {max 0 (int (max_element (bins cb)) - 30) ..<
                         min (2 ^ adc_bits cb) (int (max_element (bins cb)) + 30)}. bins cb ! nat b) \<rparr>)
            else Inl (Undefined_Behaviour signed_overflow))"
proof -
  define bs where "bs = bins cb"
  define m where "m = max_element bs"
  define lo where "lo = max (int m - 30) 0"
  define hi where "hi = min (int m + 30) (2 ^ adc_bits cb)"
  define S where "S = (\<Sum>j \<in> {lo ..< hi}. j * bs ! nat j)"
  define N where "N = (\<Sum>j \<in> {lo ..< hi}. bs ! nat j)"
  have ne: "bs \<noteq> []" using some by (auto simp: bs_def)
  have fm: "is_first_max bs m" unfolding m_def by (rule max_element_first_max [OF ne])
  have m_lt: "m < length bs" using fm by (simp add: is_first_max_def)
  have len': "int (length bs) = 2 ^ adc_bits cb" using len by (simp add: bs_def)
  have in_win: "int m \<in> {lo ..< hi}" using m_lt len' by (simp add: lo_def hi_def)
  have lo0: "0 \<le> lo" by (simp add: lo_def)
  have nn: "0 \<le> bs ! nat j" if "j \<in> {lo ..< hi}" for j
  proof -
    have "nat j < length bs" using that len' by (simp add: lo_def hi_def nat_less_iff)
    then show ?thesis using nonneg by (simp add: bs_def)
  qed
  obtain c where c: "c \<in> set bs" "0 < c" using some by (auto simp: bs_def)
  then obtain j where j: "j < length bs" "bs ! j = c" by (auto simp: in_set_conv_nth)
  have "c \<le> bs ! m" using fm j by (auto simp: is_first_max_def)
  then have pos_m: "0 < bs ! nat (int m)" using c by simp
  have "bs ! nat (int m) \<le> N"
    unfolding N_def by (rule member_le_sum [OF in_win]) (auto intro: nn)
  then have N_pos: "0 < N" using pos_m by linarith
  have S_nn: "0 \<le> S"
    unfolding S_def by (rule sum_nonneg) (use nn in \<open>auto simp: lo_def\<close>)
  have loop: "end_loop bs lo hi 0 0 =
      (if S < 2 ^ 31 \<and> N < 2 ^ 31 then Inr (S, N) else Inl (Undefined_Behaviour signed_overflow))"
    using end_loop_sums [of lo hi bs 0 0] lo0 nn by (simp add: S_def N_def)
  have cdiv: "c_div S N = Inr (S div N)"
    using S_nn N_pos by (cases "S = 0") (simp_all add: c_div_def)
  have "channel_baseline_end cb =
      (if S < 2 ^ 31 \<and> N < 2 ^ 31 then Inr (cb \<lparr> baseline := S div N \<rparr>)
       else Inl (Undefined_Behaviour signed_overflow))"
    using len
    by (simp add: channel_baseline_end_def noise_bins_def Let_def
        bs_def [symmetric] m_def [symmetric] lo_def [symmetric] hi_def [symmetric] loop cdiv)
  then show ?thesis
    using fm by (simp add: bs_def m_def lo_def hi_def S_def N_def min.commute max.commute)
qed

theorem channel_baseline_end_half_open_mean_witness:
  "length (bins hist_example) = 2 ^ adc_bits hist_example \<and>
   (\<exists>c \<in> set (bins hist_example). 0 < c) \<and>
   is_first_max (bins hist_example) 40 \<and>
   channel_baseline_end hist_example = Inr (hist_example \<lparr> baseline := 35 \<rparr>)"
proof -
  have b: "bins hist_example = (replicate 64 0) [40 := 3, 41 := 1, 39 := 1, 10 := 1]"
    and a: "adc_bits hist_example = 6"
    by (simp_all add: hist_example_def channel_baseline_start_def)
  have h1: "length (bins hist_example) = 2 ^ adc_bits hist_example"
    by (simp add: a b)
  have h2: "\<forall>c \<in> set (bins hist_example). 0 \<le> c"
    unfolding b by code_simp
  have h3: "\<exists>c \<in> set (bins hist_example). 0 < c"
    unfolding b by code_simp
  have m: "max_element (bins hist_example) = 40"
    unfolding b by code_simp
  have s1: "(\<Sum>j \<in> {10 ..< 64}. j * (replicate 64 0) [40 := 3, 41 := 1, 39 := 1, 10 := (1::int)] ! nat j) = 210"
    by code_simp
  have s2: "(\<Sum>j \<in> {10 ..< 64}. (replicate 64 0) [40 := 3, 41 := 1, 39 := 1, 10 := (1::int)] ! nat j) = 6"
    by code_simp
  from channel_baseline_end_half_open_mean [OF h1 h2 h3] h1 h3
  show ?thesis by (simp add: m a) (simp add: b s1 s2)
qed

text \<open>
  C4 as the specification words it fails on a 5-bit channel whose trace holds the samples
  0, 0 and 30: the peak is bucket 0, the code averages the buckets 0 to 29 and finds 0, the
  closed range takes in bucket 30 and gives 10.
\<close>

theorem channel_baseline_end_closed_range_counterexample:
  "analyze_channel_baseline (channel_baseline_init default_noise_percent) 0 5 [ [0, 0, 30] ]
     = Inr ((channel_baseline_start (channel_baseline_init default_noise_percent) 0 5)
              \<lparr> runs := 1, baseline := 0, bins := (replicate 32 0) [0 := 2, 30 := 1] \<rparr>) \<and>
   spec_baseline_closed_range 5 [0, 0, 30] = 10"
  by code_simp

section \<open>Properties of the DB04 DAC command\<close>

lemma low16: "(v :: 32 word) \<le> 65535 \<Longrightarrow> take_bit 16 v = v"
proof -
  assume "v \<le> 65535"
  then have "v < 2 ^ 16" by (simp add: word_le_nat_alt word_less_nat_alt)
  then show ?thesis by (simp add: take_bit_eq_mask less_mask_eq)
qed

lemma dac_fields:
  fixes a c v :: "32 word"
  assumes a: "take_bit 8 a = a" and c: "take_bit 8 c = c" and v: "take_bit 16 v = v"
  shows "drop_bit 24 (push_bit 24 a OR push_bit 16 c OR v) = a"
    and "take_bit 8 (drop_bit 16 (push_bit 24 a OR push_bit 16 c OR v)) = c"
    and "take_bit 16 (push_bit 24 a OR push_bit 16 c OR v) = v"
proof -
  have bv: "bit v n \<Longrightarrow> n < 16" for n
    by (subst (asm) v [symmetric]) (simp add: bit_simps)
  have ba: "bit a n \<Longrightarrow> n < 8" for n
    by (subst (asm) a [symmetric]) (simp add: bit_simps)
  have bc: "bit c n \<Longrightarrow> n < 8" for n
    by (subst (asm) c [symmetric]) (simp add: bit_simps)
  show "drop_bit 24 (push_bit 24 a OR push_bit 16 c OR v) = a"
    by (rule bit_word_eqI) (auto simp: bit_simps dest: bv bc ba)
  show "take_bit 8 (drop_bit 16 (push_bit 24 a OR push_bit 16 c OR v)) = c"
    by (rule bit_word_eqI) (auto simp: bit_simps dest: bv bc ba)
  show "take_bit 16 (push_bit 24 a OR push_bit 16 c OR v) = v"
    by (rule bit_word_eqI) (auto simp: bit_simps dest: bv bc ba)
qed

text \<open>
  C6. A value above 65535 is refused with \<open>invalid_value\<close>. Otherwise, for a channel offset
  from 0 to 7, the port \<open>number + 1\<close> is selected, the word
  \<open>(addr << 24) | (ctrl << 16) | value\<close> is written to \<open>CFG_DAC\<close> with the address and
  control bytes of the specification, and the fixture waits 6000 microseconds. The three fields
  do not overlap: each is read back from the word.
\<close>

theorem db04_set_dac_command_word:
  "(65535 < val \<longrightarrow> db04_set_dac this val = Inl (Thrown invalid_value)) \<and>
   (val \<le> 65535 \<and> offset this \<in> {0..7} \<longrightarrow>
      db04_set_dac this val =
        Inr [select_port (number this + 1),
             write_word CFG_DAC
               (push_bit 24 (spec_dac_addr (offset this)) OR
                push_bit 16 (spec_dac_ctrl (offset this)) OR val),
             wait 6000] \<and>
      drop_bit 24 (push_bit 24 (spec_dac_addr (offset this)) OR
                   push_bit 16 (spec_dac_ctrl (offset this)) OR val) = spec_dac_addr (offset this) \<and>
      take_bit 8 (drop_bit 16 (push_bit 24 (spec_dac_addr (offset this)) OR
                   push_bit 16 (spec_dac_ctrl (offset this)) OR val)) = spec_dac_ctrl (offset this) \<and>
      take_bit 16 (push_bit 24 (spec_dac_addr (offset this)) OR
                   push_bit 16 (spec_dac_ctrl (offset this)) OR val) = val)"
proof (intro conjI impI)
  assume "65535 < val"
  then show "db04_set_dac this val = Inl (Thrown invalid_value)"
    by (simp add: db04_set_dac_def)
next
  assume h: "val \<le> 65535 \<and> offset this \<in> {0..7}"
  then have nv: "\<not> 65535 < val" by (simp add: not_less)
  from h have "offset this \<in> {0, 1, 2, 3, 4, 5, 6, 7}" by auto
  then have cases: "offset this = 0 \<or> offset this = 1 \<or> offset this = 2 \<or> offset this = 3 \<or>
      offset this = 4 \<or> offset this = 5 \<or> offset this = 6 \<or> offset this = 7" by simp
  have a8: "take_bit 8 (spec_dac_addr (offset this)) = spec_dac_addr (offset this)"
    by (simp add: spec_dac_addr_def)
  have c8: "take_bit 8 (spec_dac_ctrl (offset this)) = spec_dac_ctrl (offset this)"
    by (simp add: spec_dac_ctrl_def spec_sigma_def)
  have v16: "take_bit 16 val = val" using h by (simp add: low16)
  show "db04_set_dac this val =
        Inr [select_port (number this + 1),
             write_word CFG_DAC
               (push_bit 24 (spec_dac_addr (offset this)) OR
                push_bit 16 (spec_dac_ctrl (offset this)) OR val),
             wait 6000]"
    using cases nv
    by (elim disjE) (simp_all add: db04_set_dac_def spec_dac_addr_def spec_dac_ctrl_def spec_sigma_def)
  show "drop_bit 24 (push_bit 24 (spec_dac_addr (offset this)) OR
                   push_bit 16 (spec_dac_ctrl (offset this)) OR val) = spec_dac_addr (offset this)"
    by (rule dac_fields(1) [OF a8 c8 v16])
  show "take_bit 8 (drop_bit 16 (push_bit 24 (spec_dac_addr (offset this)) OR
                   push_bit 16 (spec_dac_ctrl (offset this)) OR val)) = spec_dac_ctrl (offset this)"
    by (rule dac_fields(2) [OF a8 c8 v16])
  show "take_bit 16 (push_bit 24 (spec_dac_addr (offset this)) OR
                   push_bit 16 (spec_dac_ctrl (offset this)) OR val) = val"
    by (rule dac_fields(3) [OF a8 c8 v16])
qed


theorem db04_set_dac_command_word_witness:
  "db04_set_dac \<lparr> number = 1, base = 8, offset = 5, adc_state = adc_boot_state \<rparr> 34952
     = Inr [select_port 2, write_word CFG_DAC 0x20328888, wait 6000] \<and>
   db04_set_dac \<lparr> number = 1, base = 8, offset = 5, adc_state = adc_boot_state \<rparr> 65536
     = Inl (Thrown invalid_value)"
  using db04_set_dac_command_word [of 34952 "\<lparr> number = 1, base = 8, offset = 5, adc_state = adc_boot_state \<rparr>"]
    db04_set_dac_command_word [of 65536 "\<lparr> number = 1, base = 8, offset = 5, adc_state = adc_boot_state \<rparr>"]
  by (simp add: spec_dac_addr_def spec_dac_ctrl_def spec_sigma_def)

section \<open>Properties of the offset DAC feedback loop\<close>







text \<open>
  Every fit the loop holds has recorded some list of pairs: the initial fit has recorded none,
  \<open>update\<close> records one more, and \<open>calc\<close> changes the slope and intercept only.
\<close>

lemma linear_fit_init_fit_of: "linear_fit_init = fit_of (int_to_double 0) (int_to_double 0) []"
  by (simp add: linear_fit_init_def fit_of_def sum_of_def)







text \<open>
  The least-squares fit has no slope when all recorded baselines are the same: the divisor and
  both numerators are zero, \<open>k\<close> and \<open>c\<close> are NaNs, and there is no new DAC value.
\<close>

lemma dmul_nan: "dmul NaN x = NaN" "dmul x NaN = NaN"
  by (cases x; simp)+

lemma dadd_nan: "dadd NaN x = NaN" "dadd x NaN = NaN"
  by (cases x; simp)+








text \<open>
  One run of the channel loop that returns has done, for every channel, what the loop body
  does on that channel's own entries.
\<close>

lemma adjust_channels_each:
  assumes "adjust_channels F H B P n k (ds, fs, ops, ra) = Inr (ds', fs', ops', ra')"
    and "length ds = n" "length fs = n"
  shows "length ds' = n \<and> length fs' = n \<and>
         (\<forall>chan < k. ds' ! chan = ds ! chan \<and> fs' ! chan = fs ! chan) \<and>
         (\<forall>chan. k \<le> chan \<and> chan < n \<longrightarrow>
            (\<exists>ops1 again. adjust_channel (F ! chan) (H ! chan) (B ! chan) (P ! chan)
                              (ds ! chan) (fs ! chan)
                            = Inr (ds' ! chan, fs' ! chan, ops1, again)))"
  using assms
proof (induction "n - k" arbitrary: k ds fs ops ra)
  case 0
  then have "\<not> k < n" by simp
  with 0 show ?case by (subst (asm) adjust_channels.simps) auto
next
  case (Suc d)
  then have lt: "k < n" by simp
  from Suc.prems(1) lt obtain dac bl_fit ops1 again where
    step: "adjust_channel (F ! k) (H ! k) (B ! k) (P ! k) (ds ! k) (fs ! k) = Inr (dac, bl_fit, ops1, again)"
    and rest: "adjust_channels F H B P n (k + 1) (ds [k := dac], fs [k := bl_fit], ops @ ops1, ra \<or> again)
                 = Inr (ds', fs', ops', ra')"
    by (subst (asm) adjust_channels.simps) (auto split: sum.splits)
  have d: "d = n - (k + 1)" using Suc.hyps(2) by simp
  have IH: "length ds' = n \<and> length fs' = n \<and>
         (\<forall>chan < k + 1. ds' ! chan = ds [k := dac] ! chan \<and> fs' ! chan = fs [k := bl_fit] ! chan) \<and>
         (\<forall>chan. k + 1 \<le> chan \<and> chan < n \<longrightarrow>
            (\<exists>ops1 again. adjust_channel (F ! chan) (H ! chan) (B ! chan) (P ! chan)
                              (ds [k := dac] ! chan) (fs [k := bl_fit] ! chan)
                            = Inr (ds' ! chan, fs' ! chan, ops1, again)))"
    by (rule Suc.hyps(1) [OF d rest]) (simp_all add: Suc.prems)
  have at_k: "ds' ! k = dac" "fs' ! k = bl_fit"
    using IH lt Suc.prems by simp_all
  show ?case
  proof (intro conjI allI impI)
    show "length ds' = n" "length fs' = n" using IH by simp_all
  next
    fix chan assume "chan < k"
    then show "ds' ! chan = ds ! chan" "fs' ! chan = fs ! chan" using IH by simp_all
  next
    fix chan assume c: "k \<le> chan \<and> chan < n"
    show "\<exists>ops1 again. adjust_channel (F ! chan) (H ! chan) (B ! chan) (P ! chan)
                              (ds ! chan) (fs ! chan)
                            = Inr (ds' ! chan, fs' ! chan, ops1, again)"
    proof (cases "chan = k")
      case True
      then show ?thesis using step at_k by auto
    next
      case False
      with c have "k + 1 \<le> chan \<and> chan < n" by simp
      with IH False show ?thesis by simp
    qed
  qed
qed











section \<open>Properties of the crate\<close>

lemma join_workers_values:
  "join_workers (map set_value es) fe =
     Inr (if fe \<noteq> success then fe
          else (case find (\<lambda>e. e \<noteq> success) es of None \<Rightarrow> success | Some e \<Rightarrow> e))"
  by (induction es arbitrary: fe) auto

lemma spawn_workers_distinct:
  assumes "distinct rest" "set rest \<inter> set taken = {}" "\<forall>n \<in> set rest. n < length ms"
  shows "spawn_workers work force' taken rest ms =
     Inr (map (\<lambda>n. publish (fst (work (ms ! n)))) (filter (\<lambda>n. \<not> boot_skips force' (ms ! n)) rest),
          booted_modules work (filter (\<lambda>n. \<not> boot_skips force' (ms ! n)) rest) ms)"
  using assms
proof (induction rest arbitrary: taken ms)
  case Nil
  show ?case by (simp add: booted_modules_def map_nth)
next
  case (Cons n rest)
  show ?case
  proof (cases "boot_skips force' (ms ! n)")
    case True
    with Cons show ?thesis by simp
  next
    case False
    let ?ms = "ms [n := snd (work (ms ! n))]"
    have same: "?ms ! k = ms ! k" if "k \<in> set rest" for k
    proof -
      have "k \<noteq> n" using that Cons.prems(1) by auto
      then show ?thesis by simp
    qed
    have filt: "filter (\<lambda>k. \<not> boot_skips force' (?ms ! k)) rest =
                filter (\<lambda>k. \<not> boot_skips force' (ms ! k)) rest"
      by (rule filter_cong) (simp_all add: same)
    let ?ts = "filter (\<lambda>k. \<not> boot_skips force' (ms ! k)) rest"
    have IH: "spawn_workers work force' (n # taken) rest ?ms =
        Inr (map (\<lambda>k. publish (fst (work (?ms ! k)))) ?ts, booted_modules work ?ts ?ms)"
      using Cons.IH [of "n # taken" ?ms] Cons.prems filt by auto
    have maps: "map (\<lambda>k. publish (fst (work (?ms ! k)))) ?ts = map (\<lambda>k. publish (fst (work (ms ! k)))) ?ts"
      by (rule map_cong) (auto simp: same)
    have nlt: "n < length ms" using Cons.prems by simp
    have nnot: "n \<notin> set ?ts" using Cons.prems(1) by auto
    have bm: "booted_modules work ?ts ?ms = booted_modules work (n # ?ts) ms"
      unfolding booted_modules_def using nlt nnot
      by (auto simp: nth_list_update intro!: nth_equalityI)
    have nt: "n \<notin> set taken" using Cons.prems(2) by auto
    show ?thesis using False nt IH maps bm by simp
  qed
qed


lemma boot_mod_nums_in_range:
  "boot_mod_nums c params = Inr mod_nums \<Longrightarrow> n \<in> set mod_nums \<Longrightarrow> n < length (modules c)"
  by (auto simp: boot_mod_nums_def list_ex_iff not_le split: if_splits)

text \<open>
  C2, as the code has it. On a ready crate, for distinct valid module numbers whose workers
  all publish an error kind \<open>es\<close> (in spawn order): one worker runs for each module that
  is not skipped; when some kind is not \<open>success\<close> the call throws the first such kind and
  the backplane is left as it was; when all are \<open>success\<close> the backplane is reinitialised
  with the booted modules and the offline list.
\<close>

theorem crate_boot_first_error_or_reinit:
  assumes ready: "ready_flag c"
    and nums: "boot_mod_nums c params = Inr mod_nums"
    and dist: "distinct mod_nums"
    and kinds: "map (\<lambda>n. publish (fst (module_boot (boot_comms params) (boot_fippi params)
                      (boot_dsp params) (modules c ! n))))
                  (filter (\<lambda>n. \<not> boot_skips (force params) (modules c ! n)) mod_nums)
                = map set_value es"
  shows "crate_boot module_boot c params =
     (case find (\<lambda>e. e \<noteq> success) es of
        None \<Rightarrow>
          (None,
           c \<lparr> modules := booted_modules
                   (module_boot (boot_comms params) (boot_fippi params) (boot_dsp params))
                   (filter (\<lambda>n. \<not> boot_skips (force params) (modules c ! n)) mod_nums) (modules c),
               backplane := backplane c @
                 [reinit (booted_modules
                     (module_boot (boot_comms params) (boot_fippi params) (boot_dsp params))
                     (filter (\<lambda>n. \<not> boot_skips (force params) (modules c ! n)) mod_nums) (modules c))
                   (offline c)] \<rparr>)
      | Some e \<Rightarrow>
          (Some (Thrown e),
           c \<lparr> modules := booted_modules
                   (module_boot (boot_comms params) (boot_fippi params) (boot_dsp params))
                   (filter (\<lambda>n. \<not> boot_skips (force params) (modules c ! n)) mod_nums) (modules c) \<rparr>))"
proof -
  let ?work = "module_boot (boot_comms params) (boot_fippi params) (boot_dsp params)"
  let ?ts = "filter (\<lambda>n. \<not> boot_skips (force params) (modules c ! n)) mod_nums"
  have range: "\<forall>n \<in> set mod_nums. n < length (modules c)"
    using boot_mod_nums_in_range [OF nums] by blast
  have sp: "spawn_workers ?work (force params) [] mod_nums (modules c) =
      Inr (map set_value es, booted_modules ?work ?ts (modules c))"
    using spawn_workers_distinct [OF dist _ range, of "[]" ?work "force params"] kinds by simp
  have rd: "crate_ready c = None" using ready by (simp add: crate_ready_def)
  have found: "e \<noteq> success" if "find (\<lambda>e. e \<noteq> success) es = Some e" for e
    using that by (auto simp: find_Some_iff)
  show ?thesis
    by (cases "find (\<lambda>e. e \<noteq> success) es")
      (simp_all add: crate_boot_def nums rd sp join_workers_values found)
qed


text \<open>The entry points that do start with \<open>ready()\<close>.\<close>

lemma crate_probe_not_ready:
  "\<not> ready_flag c \<Longrightarrow> crate_probe module_probe c = (Inl (Thrown crate_not_ready), c)"
  by (simp add: crate_probe_def crate_ready_def)

lemma crate_boot_not_ready:
  "\<not> ready_flag c \<Longrightarrow> boot_mod_nums c params = Inr mod_nums \<Longrightarrow>
   crate_boot module_boot c params = (Some (Thrown crate_not_ready), c)"
  by (simp add: crate_boot_def crate_ready_def)

theorem crate_boot_first_error_or_reinit_witness:
  "crate_boot boot_example (crate_example [2, 3, 5]) boot_params_init =
     (Some (Thrown module_initialize_failure),
      (crate_example [2, 3, 5])
        \<lparr> modules := [(module_example 2) \<lparr> online := True \<rparr>, module_example 3, module_example 5] \<rparr>) \<and>
   crate_boot boot_example (crate_example [2, 7]) boot_params_init =
     (None,
      (crate_example [2, 7])
        \<lparr> modules := [(module_example 2) \<lparr> online := True \<rparr>, (module_example 7) \<lparr> online := True \<rparr>],
          backplane := [init 2,
             reinit [(module_example 2) \<lparr> online := True \<rparr>, (module_example 7) \<lparr> online := True \<rparr>] []] \<rparr>)"
proof -
  have r: "ready_flag (crate_example slots)" for slots by (simp add: crate_example_def)
  have n3: "boot_mod_nums (crate_example [2, 3, 5]) boot_params_init = Inr [0, 1, 2]"
    by (simp add: boot_mod_nums_def crate_example_def boot_params_init_def upt_rec)
  have n2: "boot_mod_nums (crate_example [2, 7]) boot_params_init = Inr [0, 1]"
    by (simp add: boot_mod_nums_def crate_example_def boot_params_init_def upt_rec)
  have k3: "map (\<lambda>n. publish (fst (boot_example (boot_comms boot_params_init) (boot_fippi boot_params_init)
                      (boot_dsp boot_params_init) (modules (crate_example [2, 3, 5]) ! n))))
                  (filter (\<lambda>n. \<not> boot_skips (force boot_params_init) (modules (crate_example [2, 3, 5]) ! n)) [0, 1, 2])
                = map set_value [success, module_initialize_failure, internal_failure]"
    by (simp add: crate_example_def module_example_def boot_example_def boot_skips_def
        boot_params_init_def publish_def)
  have k2: "map (\<lambda>n. publish (fst (boot_example (boot_comms boot_params_init) (boot_fippi boot_params_init)
                      (boot_dsp boot_params_init) (modules (crate_example [2, 7]) ! n))))
                  (filter (\<lambda>n. \<not> boot_skips (force boot_params_init) (modules (crate_example [2, 7]) ! n)) [0, 1])
                = map set_value [success, success]"
    by (simp add: crate_example_def module_example_def boot_example_def boot_skips_def
        boot_params_init_def publish_def)
  show ?thesis
    using
      crate_boot_first_error_or_reinit [where module_boot = boot_example
        and c = "crate_example [2, 3, 5]" and params = boot_params_init and mod_nums = "[0, 1, 2]"
        and es = "[success, module_initialize_failure, internal_failure]", OF r n3 _ k3]
      crate_boot_first_error_or_reinit [where module_boot = boot_example
        and c = "crate_example [2, 7]" and params = boot_params_init and mod_nums = "[0, 1]"
        and es = "[success, success]", OF r n2 _ k2]
    by (simp add: booted_modules_def crate_example_def module_example_def boot_example_def
        boot_skips_def boot_params_init_def upt_rec)
qed

text \<open>
  C2 as the specification words it fails on a crate whose only module fails to boot: the call
  throws, and no \<open>reinit\<close> follows the \<open>init\<close> in the calls made on the backplane.
\<close>

theorem crate_boot_failure_skips_reinit_counterexample:
  "fst (crate_boot boot_example (crate_example [3]) boot_params_init)
     = Some (Thrown module_initialize_failure) \<and>
   backplane (snd (crate_boot boot_example (crate_example [3]) boot_params_init)) = [init 1]"
  by (simp add: crate_boot_def boot_mod_nums_def crate_ready_def crate_example_def
      module_example_def boot_example_def boot_skips_def boot_params_init_def publish_def upt_rec)

text \<open>
  C5. Two modules whose \<open>close\<close> throws, \<open>module_initialize_failure\<close> first and
  \<open>internal_failure\<close> second: \<open>shutdown\<close> throws \<open>internal_failure\<close>, the kind of the
  last failure, not of the first.
\<close>

theorem crate_shutdown_throws_last_error:
  "fst (crate_shutdown close_example (crate_example [3, 5])) = Some (Thrown internal_failure) \<and>
   close_example (modules (crate_example [3, 5]) ! 0) = Throws module_initialize_failure"
  by (simp add: crate_shutdown_def crate_example_def module_example_def close_example_def)

text \<open>
  C7. On a crate that was never initialised, \<open>export_config\<close> returns once the file
  opens, and \<open>boot\<close> with an explicit module list throws \<open>module_number_invalid\<close>:
  neither throws \<open>crate_not_ready\<close>.
\<close>

theorem export_config_and_boot_skip_ready_check:
  "ready_flag crate_init = False \<and>
   crate_export_config (\<lambda>m. Returns) True crate_init = None \<and>
   fst (crate_boot boot_example crate_init (boot_params_init \<lparr> boot_modules := [0] \<rparr>))
     = Some (Thrown module_number_invalid)"
  by (simp add: crate_export_config_def export_json_def crate_init_def crate_boot_def
      boot_mod_nums_def boot_params_init_def)

section \<open>Properties of the channel variable import\<close>

lemma extend_values_nonempty:
  "vals \<noteq> [] \<Longrightarrow> extend_values vals k = vals @ replicate k (vals ! 0)"
proof (induction k arbitrary: vals)
  case 0
  then show ?case by simp
next
  case (Suc k)
  have "extend_values (vals @ [vals ! 0]) k = (vals @ [vals ! 0]) @ replicate k ((vals @ [vals ! 0]) ! 0)"
    by (rule Suc.IH) simp
  also have "(vals @ [vals ! 0]) ! 0 = vals ! 0" using Suc.prems by (simp add: nth_append)
  finally show ?case using Suc.prems by (simp add: replicate_app_Cons_same)
qed

lemma write_elements_numbers:
  assumes "\<forall>i \<in> {v ..< size'}. vbase + i < length vals \<and> is_number (vals ! (vbase + i))"
  shows "write_elements var vals chan vbase size' v =
     (map (\<lambda>i. write_var var (to_value (vals ! (vbase + i))) chan i False) [v ..< size'], None)"
  using assms
proof (induction "size' - v" arbitrary: v)
  case 0
  then show ?case by (subst write_elements.simps) simp
next
  case (Suc d)
  then have lt: "v < size'" by simp
  have here: "vbase + v < length vals" "is_number (vals ! (vbase + v))"
    using Suc.prems lt by auto
  then obtain x where x: "vals ! (vbase + v) = json_number x"
    by (auto simp: is_number_def split: json.splits)
  have rest: "write_elements var vals chan vbase size' (v + 1) =
     (map (\<lambda>i. write_var var (to_value (vals ! (vbase + i))) chan i False) [v + 1 ..< size'], None)"
    using Suc.hyps(1) [of "v + 1"] Suc.hyps(2) Suc.prems by auto
  show ?case
    using lt here x rest
    by (subst write_elements.simps) (simp add: json_at_def to_value_def upt_conv_Cons)
qed

lemma write_channels_numbers:
  assumes "0 < size'" "bound \<le> num_channels'" "bound \<le> vchannels" "bound * size' \<le> length vals"
    "bound = num_channels' \<or> bound = vchannels"
    "list_all is_number vals"
  shows "write_channels var vals num_channels' vchannels size' chan =
     (concat (map (\<lambda>ch. map (\<lambda>i. write_var var (to_value (vals ! (ch * size' + i))) ch i False)
                            [0 ..< size']) [chan ..< bound]), None)"
  using assms
proof (induction "bound - chan" arbitrary: chan)
  case 0
  then have ge: "bound \<le> chan" by simp
  have ng: "(chan < num_channels' \<and> chan < vchannels \<and> chan * size' < length vals) = False"
    using ge 0(6) by auto
  have lhs: "write_channels var vals num_channels' vchannels size' chan = ([], None)"
    by (subst write_channels.simps) (simp only: ng if_False)
  have e: "[chan ..< bound] = []" using ge by simp
  show ?case unfolding lhs e by simp
next
  case (Suc d)
  then have lt: "chan < bound" by simp
  have "chan + 1 \<le> bound" using lt by simp
  then have "(chan + 1) * size' \<le> bound * size'" by (rule mult_le_mono1)
  then have fits: "chan * size' + size' \<le> length vals"
    using Suc.prems(4) by (simp add: add_mult_distrib)
  have guard: "chan < num_channels' \<and> chan < vchannels \<and> chan * size' < length vals"
    using lt Suc.prems fits by auto
  have nums: "\<forall>i \<in> {0 ..< size'}. chan * size' + i < length vals \<and>
      is_number (vals ! (chan * size' + i))"
    using fits Suc.prems(6) by (auto simp: list_all_length)
  have rest: "write_channels var vals num_channels' vchannels size' (chan + 1) =
     (concat (map (\<lambda>ch. map (\<lambda>i. write_var var (to_value (vals ! (ch * size' + i))) ch i False)
                            [0 ..< size']) [chan + 1 ..< bound]), None)"
    using Suc.hyps(1) [of "chan + 1"] Suc.hyps(2) Suc.prems by auto
  show ?case
    using guard lt rest write_elements_numbers [OF nums, of var chan]
    by (subst write_channels.simps) (simp add: upt_conv_Cons)
qed


lemma spec_writes_cong:
  assumes "\<And>ch i. ch < n \<Longrightarrow> i < s \<Longrightarrow> xs ! (ch * s + i) = spec_values s n vals ! (ch * s + i)"
  shows "concat (map (\<lambda>ch. map (\<lambda>i. write_var var (to_value (xs ! (ch * s + i))) ch i False)
                            [0 ..< s]) [0 ..< n]) = spec_writes var s n vals"
  unfolding spec_writes_def
  by (rule arg_cong [where f = concat], rule map_cong, simp, rule map_cong) (simp_all add: assms)

lemma index_in_range: "ch < n \<Longrightarrow> i < s \<Longrightarrow> ch * s + i < n * (s::nat)"
proof -
  assume a: "ch < n" "i < s"
  then have "ch * s + i < ch * s + s" by simp
  also have "\<dots> = (ch + 1) * s" by (simp add: add_mult_distrib)
  also have "\<dots> \<le> n * s" using a(1) by (intro mult_le_mono1) simp
  finally show ?thesis .
qed

text \<open>
  C9, as the code has it, for a writable variable of size at least 1. An array whose length is
  no multiple of the size is skipped: nothing is written. An array of numbers whose length is
  a multiple of the size is written as the specification says when it covers all channels (the
  elements past \<open>num_channels * size\<close> are not written), and when the size is 1 and the
  array is not empty (it is filled up with copies of element 0).
\<close>

theorem import_channel_var_writes:
  assumes w: "writeable desc" and s0: "0 < desc_size desc"
  shows "(length vals mod desc_size desc \<noteq> 0 \<longrightarrow>
            import_channel_var var desc n vals = ([], None)) \<and>
         (length vals mod desc_size desc = 0 \<and> list_all is_number vals \<and>
            (n * desc_size desc \<le> length vals \<or> (desc_size desc = 1 \<and> vals \<noteq> [])) \<longrightarrow>
            import_channel_var var desc n vals = (spec_writes var (desc_size desc) n vals, None))"
proof (intro conjI impI)
  assume "length vals mod desc_size desc \<noteq> 0"
  then show "import_channel_var var desc n vals = ([], None)"
    using w s0 by (simp add: import_channel_var_def)
next
  let ?s = "desc_size desc"
  assume h: "length vals mod ?s = 0 \<and> list_all is_number vals \<and>
            (n * ?s \<le> length vals \<or> (?s = 1 \<and> vals \<noteq> []))"
  then have dv: "length vals mod ?s = 0" and nums: "list_all is_number vals" by simp_all
  have len: "length vals div ?s * ?s = length vals" using dv by (simp add: mod_0_imp_dvd)
  show "import_channel_var var desc n vals = (spec_writes var ?s n vals, None)"
  proof (cases "n * ?s \<le> length vals")
    case True
    then have "n * ?s \<le> length vals div ?s * ?s" using len by simp
    then have cover: "n \<le> length vals div ?s" using s0 by simp
    have wc: "write_channels var vals n (length vals div ?s) ?s 0 =
        (concat (map (\<lambda>ch. map (\<lambda>i. write_var var (to_value (vals ! (ch * ?s + i))) ch i False)
                            [0 ..< ?s]) [0 ..< n]), None)"
      by (rule write_channels_numbers [OF s0 _ cover True _ nums]) simp_all
    have "concat (map (\<lambda>ch. map (\<lambda>i. write_var var (to_value (vals ! (ch * ?s + i))) ch i False)
                            [0 ..< ?s]) [0 ..< n]) = spec_writes var ?s n vals"
      using True by (intro spec_writes_cong) (simp add: spec_values_def index_in_range)
    then show ?thesis
      using w s0 dv cover wc by (simp add: import_channel_var_def)
  next
    case False
    with h have one: "?s = 1" and ne: "vals \<noteq> []" by simp_all
    from False one have short: "length vals < n" by simp
    let ?ext = "vals @ replicate (n - length vals) (vals ! 0)"
    have ext: "extend_values vals (n - length vals) = ?ext"
      by (rule extend_values_nonempty [OF ne])
    have lext: "length ?ext = n" using short by simp
    have "is_number (vals ! 0)" using ne nums by (simp add: list_all_length)
    then have nums': "list_all is_number ?ext" using nums by (auto simp: list_all_iff)
    have wc: "write_channels var ?ext n n 1 0 =
        (concat (map (\<lambda>ch. map (\<lambda>i. write_var var (to_value (?ext ! (ch * 1 + i))) ch i False)
                            [0 ..< 1]) [0 ..< n]), None)"
      by (rule write_channels_numbers [OF _ _ _ _ _ nums']) (simp_all add: lext)
    have "concat (map (\<lambda>ch. map (\<lambda>i. write_var var (to_value (?ext ! (ch * 1 + i))) ch i False)
                            [0 ..< 1]) [0 ..< n]) = spec_writes var 1 n vals"
      using lext by (intro spec_writes_cong) (simp add: spec_values_def)
    then show ?thesis
      using w short wc by (simp add: import_channel_var_def one ext lext)
  qed
qed


theorem import_channel_var_writes_witness:
  "import_channel_var ''OffsetDAC'' \<lparr> writeable = True, desc_size = 1 \<rparr> 4 [json_number 7, json_number 8]
     = ([write_var ''OffsetDAC'' 7 0 0 False, write_var ''OffsetDAC'' 8 1 0 False,
         write_var ''OffsetDAC'' 7 2 0 False, write_var ''OffsetDAC'' 7 3 0 False], None) \<and>
   import_channel_var ''OffsetDAC'' \<lparr> writeable = True, desc_size = 1 \<rparr> 2
       [json_number 7, json_number 8, json_number 9]
     = ([write_var ''OffsetDAC'' 7 0 0 False, write_var ''OffsetDAC'' 8 1 0 False], None) \<and>
   import_channel_var ''ChanVar'' \<lparr> writeable = True, desc_size = 2 \<rparr> 2
       [json_number 1, json_number 2, json_number 3]
     = ([], None)"
  using
    import_channel_var_writes [of "\<lparr> writeable = True, desc_size = 1 \<rparr>"
      "[json_number 7, json_number 8]" "''OffsetDAC''" 4]
    import_channel_var_writes [of "\<lparr> writeable = True, desc_size = 1 \<rparr>"
      "[json_number 7, json_number 8, json_number 9]" "''OffsetDAC''" 2]
    import_channel_var_writes [of "\<lparr> writeable = True, desc_size = 2 \<rparr>"
      "[json_number 1, json_number 2, json_number 3]" "''ChanVar''" 2]
  by (simp add: spec_writes_def spec_values_def is_number_def to_value_def upt_rec nth_append)

text \<open>
  C9 as the specification words it fails for a variable of size 2 on a module of 2 channels
  and an array of 5 numbers: the specification writes the first 4, the code writes nothing.
\<close>

theorem import_channel_var_size_mismatch_counterexample:
  "import_channel_var ''ChanVar'' \<lparr> writeable = True, desc_size = 2 \<rparr> 2
       [json_number 1, json_number 2, json_number 3, json_number 4, json_number 5]
     = ([], None) \<and>
   spec_writes ''ChanVar'' 2 2
       [json_number 1, json_number 2, json_number 3, json_number 4, json_number 5]
     = [write_var ''ChanVar'' 1 0 0 False, write_var ''ChanVar'' 2 0 1 False,
        write_var ''ChanVar'' 3 1 0 False, write_var ''ChanVar'' 4 1 1 False]"
  by (simp add: import_channel_var_def spec_writes_def spec_values_def to_value_def upt_rec)

end
